theory Spec2Isabelle
  imports Complex_Main "HOL-Library.AList"
begin

chapter \<open>Synth NeuroDark23: pattern store, scheduler and codecs\<close>

text \<open>
  A shallow embedding of the sequencer's data model (class \<open>TimeMatrix\<close>), of the
  look-ahead scheduler of \<open>AudioEngine\<close>, and of the CSV and MIDI codecs.
  JavaScript objects are records, object literals used as dictionaries are association
  lists in insertion order, arrays are lists, and every mutation returns the new state.
  A JavaScript number that the code obtains from \<open>parseInt\<close> or \<open>Number\<close> may be
  \<open>NaN\<close>: such a value has type \<open>jsnum\<close>, with \<open>None\<close> for \<open>NaN\<close>. Only
  integral numbers are modelled (the editor and both codecs produce no others), and they
  are unbounded.
\<close>

section \<open>Data model\<close>

type_synonym jsnum = "int option"

text \<open>A note object \<open>{ note, octave, slide, accent }\<close>; the field \<open>note\<close> is
  called \<open>noteName\<close> here.\<close>

record step_note =
  noteName :: string
  octave :: jsnum
  slide :: bool
  accent :: bool

text \<open>A block \<open>{ tracks, drums }\<close>: \<open>tracks\<close> maps a track id to an array of
  note slots (\<open>None\<close> is \<open>null\<close>), \<open>drums\<close> is an array of lists of channel ids.\<close>

record block =
  tracks :: "(string \<times> step_note option list) list"
  drums :: "nat list list"

definition totalSteps :: nat where
  "totalSteps = 16"

section \<open>TimeMatrix: block management\<close>

text \<open>\<open>new Array(this.totalSteps).fill(null)\<close>\<close>

definition emptyTrack :: "step_note option list" where
  "emptyTrack = replicate totalSteps None"

text \<open>\<open>registerTrack(id)\<close>: a block gets the key only where \<open>b.tracks[id]\<close> is
  falsy, that is where the key is absent (a present value is an array, which is truthy).
  A new key of an object comes last in its key order. Both sentences are about the ids
  that the program makes (\<open>bass-1\<close>, \<open>bass-2\<close>, ...): for the name of a property
  that every object inherits (\<open>__proto__\<close>, \<open>constructor\<close>, \<open>toString\<close>, ...)
  the lookup is truthy without the key, and a key that is written like an array index
  is enumerated before the others. The operations treat all blocks alike in both
  cases.\<close>

definition registerTrack :: "string \<Rightarrow> block list \<Rightarrow> block list" where
  "registerTrack tid bs =
     map (\<lambda>b. if map_of (tracks b) tid = None
               then b\<lparr>tracks := tracks b @ [(tid, emptyTrack)]\<rparr> else b) bs"

definition removeTrack :: "string \<Rightarrow> block list \<Rightarrow> block list" where
  "removeTrack tid bs = map (\<lambda>b. b\<lparr>tracks := AList.delete tid (tracks b)\<rparr>) bs"

definition addBlock :: "block list \<Rightarrow> block list" where
  "addBlock bs =
     (let newTracks =
            (if length bs > 0 then map (\<lambda>k. (k, emptyTrack)) (map fst (tracks (hd bs)))
             else [(''bass-1'', emptyTrack)])
      in bs @ [\<lparr>tracks = newTracks, drums = replicate totalSteps []\<rparr>])"

text \<open>\<open>clearBlock(idx)\<close>: nothing happens where \<open>this.blocks[idx]\<close> is undefined;
  otherwise every track is filled with \<open>null\<close> and every drum list is truncated to
  length 0.\<close>

definition clearContents :: "block \<Rightarrow> block" where
  "clearContents b =
     \<lparr>tracks = map (\<lambda>(k, arr). (k, map (\<lambda>_. None) arr)) (tracks b),
      drums = map (\<lambda>_. []) (drums b)\<rparr>"

definition clearBlock :: "int \<Rightarrow> block list \<Rightarrow> block list" where
  "clearBlock idx bs =
     (if 0 \<le> idx \<and> idx < int (length bs)
      then bs[nat idx := clearContents (bs ! nat idx)] else bs)"

text \<open>\<open>Array.prototype.splice(idx, 1)\<close>: a negative start counts from the end, the
  start is clamped to the array, and at most one element is removed.\<close>

definition splice1 :: "int \<Rightarrow> 'a list \<Rightarrow> 'a list" where
  "splice1 idx xs =
     (let len = int (length xs);
          start = (if idx < 0 then max (len + idx) 0 else min idx len)
      in take (nat start) xs @ drop (Suc (nat start)) xs)"

definition removeBlock :: "int \<Rightarrow> block list \<Rightarrow> block list" where
  "removeBlock idx bs = (if length bs \<le> 1 then clearBlock 0 bs else splice1 idx bs)"

text \<open>\<open>moveBlock(idx, dir)\<close> swaps two array elements by index. Reading an array
  outside its range gives \<open>undefined\<close>, and writing at an index beyond the end extends
  the array, leaving holes. The array of this operation is therefore a list of optional
  entries, \<open>None\<close> being \<open>undefined\<close>. A write at a negative index sets a property
  that is not an element and leaves the elements as they are.\<close>

definition js_get :: "'a option list \<Rightarrow> int \<Rightarrow> 'a option" where
  "js_get xs i = (if 0 \<le> i \<and> i < int (length xs) then xs ! nat i else None)"

definition js_set :: "'a option list \<Rightarrow> int \<Rightarrow> 'a option \<Rightarrow> 'a option list" where
  "js_set xs i v =
     (if i < 0 then xs
      else if i < int (length xs) then xs[nat i := v]
      else xs @ replicate (nat i - length xs) None @ [v])"

definition moveBlock :: "int \<Rightarrow> int \<Rightarrow> 'a option list \<Rightarrow> bool \<times> 'a option list" where
  "moveBlock idx dir bs =
     (let t = idx + dir in
      if t < 0 \<or> t \<ge> int (length bs) then (False, bs)
      else (let tmp = js_get bs t;
                bs1 = js_set bs t (js_get bs idx);
                bs2 = js_set bs1 idx tmp
            in (True, bs2)))"

text \<open>\<open>getStepData(step, block)\<close>: the empty object \<open>{}\<close> is \<open>None\<close>; otherwise
  the block's tracks and \<open>b.drums[step] || []\<close>.\<close>

definition getStepData ::
  "nat \<Rightarrow> nat \<Rightarrow> block list \<Rightarrow> ((string \<times> step_note option list) list \<times> nat list) option" where
  "getStepData step blk bs =
     (if blk < length bs
      then Some (tracks (bs ! blk),
                 (if step < length (drums (bs ! blk)) then drums (bs ! blk) ! step else []))
      else None)"

text \<open>The store after construction (\<open>this.blocks = []; this.addBlock()\<close>), and the
  four structural operations as a command language.\<close>

definition initialBlocks :: "block list" where
  "initialBlocks = addBlock []"

datatype store_op = AddBlock | RemoveBlock int | RegisterTrack string | RemoveTrack string

fun apply_op :: "store_op \<Rightarrow> block list \<Rightarrow> block list" where
  "apply_op AddBlock bs = addBlock bs"
| "apply_op (RemoveBlock i) bs = removeBlock i bs"
| "apply_op (RegisterTrack t) bs = registerTrack t bs"
| "apply_op (RemoveTrack t) bs = removeTrack t bs"

definition run_ops :: "store_op list \<Rightarrow> block list \<Rightarrow> block list" where
  "run_ops ops bs = fold apply_op ops bs"

definition track_keys :: "block \<Rightarrow> string set" where
  "track_keys b = set (map fst (tracks b))"

section \<open>JavaScript strings and numbers\<close>

text \<open>Strings are lists of characters. The white space that \<open>trim\<close> and
  \<open>parseInt\<close> strip is tab, line feed, vertical tab, form feed, carriage return,
  space and no-break space (the white space among the code units below 256).\<close>

definition is_ws :: "char \<Rightarrow> bool" where
  "is_ws c \<longleftrightarrow> c \<in> set [CHR 0x09, CHR 0x0A, CHR 0x0B, CHR 0x0C, CHR 0x0D, CHR 0x20, CHR 0xA0]"

definition js_trim :: "string \<Rightarrow> string" where
  "js_trim s = rev (dropWhile is_ws (rev (dropWhile is_ws s)))"

text \<open>\<open>s.split(c)\<close> for a separator of one character: the result is never empty.\<close>

fun split_on :: "char \<Rightarrow> string \<Rightarrow> string list" where
  "split_on c [] = [[]]"
| "split_on c (x # xs) =
     (if x = c then [] # split_on c xs
      else (case split_on c xs of
              [] \<Rightarrow> [[x]]
            | y # ys \<Rightarrow> (x # y) # ys))"

text \<open>\<open>xs[i]\<close> for an array: \<open>None\<close> is \<open>undefined\<close>.\<close>

definition nth_opt :: "'a list \<Rightarrow> nat \<Rightarrow> 'a option" where
  "nth_opt xs i = (if i < length xs then Some (xs ! i) else None)"

fun index_of :: "'a \<Rightarrow> 'a list \<Rightarrow> nat" where
  "index_of x [] = 0"
| "index_of x (y # ys) = (if x = y then 0 else Suc (index_of x ys))"

definition digits10 :: string where
  "digits10 = ''0123456789''"

definition is_digit :: "char \<Rightarrow> bool" where
  "is_digit c \<longleftrightarrow> c \<in> set digits10"

definition digit_val :: "char \<Rightarrow> nat" where
  "digit_val c = index_of c digits10"

definition is_hex_digit :: "char \<Rightarrow> bool" where
  "is_hex_digit c \<longleftrightarrow> c \<in> set ''0123456789abcdefABCDEF''"

definition hex_val :: "char \<Rightarrow> nat" where
  "hex_val c = (if c \<in> set ''0123456789abcdef'' then index_of c ''0123456789abcdef''
                else index_of c ''0123456789ABCDEF'')"

text \<open>The value of a digit string in a radix, most significant digit first.\<close>

definition radix_val :: "nat \<Rightarrow> (char \<Rightarrow> nat) \<Rightarrow> string \<Rightarrow> nat" where
  "radix_val r dv ds = foldl (\<lambda>acc c. acc * r + dv c) 0 ds"

text \<open>\<open>parseInt(s)\<close> without a radix: leading white space is skipped, a sign is
  read, the prefix \<open>0x\<close> or \<open>0X\<close> selects radix 16, and the longest prefix of digits
  is the value; with no digit the result is \<open>NaN\<close>. The value is the exact integer,
  as it is in the code up to \<open>2^53\<close>; beyond that the code has the nearest
  double.\<close>

definition parseInt :: "string \<Rightarrow> jsnum" where
  "parseInt str =
     (let s0 = dropWhile is_ws str;
          neg = (s0 \<noteq> [] \<and> hd s0 = CHR ''-'');
          s1 = (if s0 \<noteq> [] \<and> (hd s0 = CHR ''-'' \<or> hd s0 = CHR ''+'') then tl s0 else s0);
          hex = (take 2 s1 = ''0x'' \<or> take 2 s1 = ''0X'');
          s2 = (if hex then drop 2 s1 else s1);
          z = (if hex then takeWhile is_hex_digit s2 else takeWhile is_digit s2);
          v = (if hex then radix_val 16 hex_val z else radix_val 10 digit_val z)
      in if z = [] then None
         else Some (if neg then - int v else int v))"

text \<open>\<open>parseInt(xs[i])\<close>: \<open>undefined\<close> is converted to the string
  \<open>undefined\<close>, which has no digit.\<close>

definition parseInt_opt :: "string option \<Rightarrow> jsnum" where
  "parseInt_opt v = (case v of None \<Rightarrow> None | Some s \<Rightarrow> parseInt s)"

text \<open>\<open>Number(s)\<close> on the literals of integers: white space is trimmed on both
  sides, the empty string is 0, a decimal literal may have a sign, a hexadecimal one may
  not. Anything else is \<open>NaN\<close> here. That is what the code gives for a text that is
  no numeric literal; the literals with a fraction, an exponent or the prefixes
  \<open>0b\<close> and \<open>0o\<close>, and \<open>Infinity\<close>, which the code reads as numbers, are
  outside the integers of this model (\<open>exportToCSV\<close> writes none for integer
  parameters).\<close>

definition js_Number :: "string \<Rightarrow> jsnum" where
  "js_Number str =
     (let s = js_trim str;
          neg = (s \<noteq> [] \<and> hd s = CHR ''-'');
          s1 = (if s \<noteq> [] \<and> (hd s = CHR ''-'' \<or> hd s = CHR ''+'') then tl s else s)
      in if s = [] then Some 0
         else if (take 2 s = ''0x'' \<or> take 2 s = ''0X'') \<and> drop 2 s \<noteq> []
                 \<and> list_all is_hex_digit (drop 2 s)
         then Some (int (radix_val 16 hex_val (drop 2 s)))
         else if s1 \<noteq> [] \<and> list_all is_digit s1
         then Some (if neg then - int (radix_val 10 digit_val s1) else int (radix_val 10 digit_val s1))
         else None)"

text \<open>A number in a template literal: decimal digits, a minus sign for a negative
  number, \<open>NaN\<close>. The code prints an integer in decimal digits below \<open>10^21\<close>
  and in exponent notation from there on; the numbers of the properties below stay
  under \<open>2^53\<close>.\<close>

fun show_nat :: "nat \<Rightarrow> string" where
  "show_nat n = (if n < 10 then [digits10 ! n] else show_nat (n div 10) @ [digits10 ! (n mod 10)])"

declare show_nat.simps [simp del]

definition show_int :: "int \<Rightarrow> string" where
  "show_int i = (if i < 0 then CHR ''-'' # show_nat (nat (- i)) else show_nat (nat i))"

definition show_jsnum :: "jsnum \<Rightarrow> string" where
  "show_jsnum v = (case v of None \<Rightarrow> ''NaN'' | Some i \<Rightarrow> show_int i)"

text \<open>\<open>Math.max(0, Math.min(100, val))\<close>\<close>

definition clamp100 :: "jsnum \<Rightarrow> jsnum" where
  "clamp100 v = (case v of None \<Rightarrow> None | Some i \<Rightarrow> Some (max 0 (min 100 i)))"

section \<open>Web Audio: the numbers an audio node accepts\<close>

text \<open>
  The audio nodes are not modelled, only whether a call on them raises. A number that is
  given to an \<open>AudioParam\<close>, through its \<open>value\<close> attribute or through one of its
  automation methods, is converted to a single-precision float, and the conversion raises
  \<open>TypeError\<close> for \<open>NaN\<close>, for an infinity and for every number that is nearer
  to \<open>2^128\<close> than to the largest float. A number computed by the audio code is
  \<open>NaN\<close> (\<open>None\<close>) or a real number here: its floating-point arithmetic is
  exact, and what overflows to an infinity there is a real beyond the floats here.
\<close>

type_synonym jsreal = "real option"

definition num :: "jsnum \<Rightarrow> jsreal" where
  "num v = map_option real_of_int v"

definition is_float :: "jsreal \<Rightarrow> bool" where
  "is_float v = (case v of None \<Rightarrow> False | Some x \<Rightarrow> \<bar>x\<bar> < 2 ^ 128 - 2 ^ 103)"

section \<open>The session: tempo, pattern, bass synths, drum channels\<close>

record bass_params =
  volume :: jsnum
  distortion :: jsnum
  distTone :: jsnum
  distGain :: jsnum
  cutoff :: jsnum
  resonance :: jsnum
  envMod :: jsnum
  decay :: jsnum
  accentInt :: jsnum
  waveform :: string

text \<open>A \<open>BassSynth\<close>: its \<open>id\<close> (here \<open>synthId\<close>), its \<open>params\<close>, and
  whether \<open>init\<close> has run, which sets \<open>ctx\<close>, \<open>output\<close> and \<open>fxChain\<close>
  together (\<open>BassDistortion\<close> is defined, and its constructor is given finite
  numbers).\<close>

record bass_synth =
  synthId :: string
  params :: bass_params
  fxChain :: bool

definition defaultParams :: bass_params where
  "defaultParams = \<lparr>volume = Some 85, distortion = Some 20, distTone = Some 100,
     distGain = Some 60, cutoff = Some 40, resonance = Some 8, envMod = Some 60,
     decay = Some 40, accentInt = Some 50, waveform = ''sawtooth''\<rparr>"

text \<open>A drum channel \<open>{ id, type, variant, volume, gainNode, colorId }\<close> (here
  \<open>chId\<close>, \<open>chType\<close>, \<open>variant\<close>, \<open>chVolume\<close>, \<open>gainNode\<close>, \<open>colorId\<close>);
  a \<open>colorId\<close> of \<open>None\<close> is \<open>undefined\<close>, and \<open>gainNode\<close> says whether the
  node has been created.\<close>

record drum_channel =
  chId :: nat
  chType :: string
  variant :: jsnum
  chVolume :: jsnum
  colorId :: "int option"
  gainNode :: bool

text \<open>The \<open>DrumSynth\<close>: \<open>masterGain\<close> says whether \<open>init\<close> has set \<open>ctx\<close>
  and \<open>masterGain\<close>.\<close>

record drum_synth =
  masterVolume :: jsnum
  channels :: "drum_channel list"
  masterGain :: bool

text \<open>The channels as the bootstrap leaves them: the constructor's values, and the gain
  nodes that \<open>init\<close> creates.\<close>

definition defaultChannels :: "drum_channel list" where
  "defaultChannels =
     [\<lparr>chId = 0, chType = ''kick'', variant = Some 1, chVolume = Some 90, colorId = Some 0, gainNode = True\<rparr>,
      \<lparr>chId = 1, chType = ''snare'', variant = Some 1, chVolume = Some 85, colorId = Some 1, gainNode = True\<rparr>,
      \<lparr>chId = 2, chType = ''clap'', variant = Some 1, chVolume = Some 80, colorId = Some 2, gainNode = True\<rparr>,
      \<lparr>chId = 3, chType = ''chat'', variant = Some 1, chVolume = Some 75, colorId = Some 3, gainNode = True\<rparr>,
      \<lparr>chId = 4, chType = ''ohat'', variant = Some 1, chVolume = Some 75, colorId = Some 4, gainNode = True\<rparr>,
      \<lparr>chId = 5, chType = ''ltom'', variant = Some 1, chVolume = Some 80, colorId = Some 5, gainNode = True\<rparr>,
      \<lparr>chId = 6, chType = ''htom'', variant = Some 1, chVolume = Some 80, colorId = Some 6, gainNode = True\<rparr>,
      \<lparr>chId = 7, chType = ''crash'', variant = Some 1, chVolume = Some 70, colorId = Some 7, gainNode = True\<rparr>,
      \<lparr>chId = 8, chType = ''perc'', variant = Some 1, chVolume = Some 75, colorId = Some 8, gainNode = True\<rparr>]"

definition defaultDrumSynth :: drum_synth where
  "defaultDrumSynth = \<lparr>masterVolume = Some 85, channels = defaultChannels, masterGain = True\<rparr>"

text \<open>The live session: \<open>AppState.bpm\<close>, \<open>timeMatrix.blocks\<close>, the bass synths of
  \<open>window.audioEngine\<close>, \<open>window.drumSynth\<close> (\<open>None\<close> for a global that does
  not exist), and whether the engine has its audio context (\<open>audioEngine.ctx\<close>).\<close>

record session =
  bpm :: int
  blocks :: "block list"
  audioEngine :: "bass_synth list option"
  drumSynth :: "drum_synth option"
  audioCtx :: bool

text \<open>The session when the bootstrap is through: the constructors have run, and
  \<open>audioEngine.init()\<close> has created the context, the synth \<open>bass-1\<close> and the
  nodes of the synths.\<close>

definition initialSession :: session where
  "initialSession = \<lparr>bpm = 174, blocks = initialBlocks,
     audioEngine = Some [\<lparr>synthId = ''bass-1'', params = defaultParams, fxChain = True\<rparr>],
     drumSynth = Some defaultDrumSynth, audioCtx = True\<rparr>"

section \<open>TimeMatrix: CSV export\<close>

definition noteMapRev :: "string list" where
  "noteMapRev = [''-'', ''C'', ''C#'', ''D'', ''D#'', ''E'', ''F'', ''F#'', ''G'', ''G#'',
     ''A'', ''A#'', ''B'']"





text \<open>\<open>track ? track[s] : null\<close> for \<open>track = block.tracks[id]\<close>\<close>

definition track_slot :: "block \<Rightarrow> string \<Rightarrow> nat \<Rightarrow> step_note option" where
  "track_slot b tid s =
     (case map_of (tracks b) tid of
        None \<Rightarrow> None
      | Some track \<Rightarrow> (if s < length track then track ! s else None))"



text \<open>A row is its first field followed by \<open>,cell\<close> for every cell.\<close>

definition csv_row :: "string \<Rightarrow> string list \<Rightarrow> string" where
  "csv_row config cells = config @ concat (map (\<lambda>c. CHR '','' # c) cells)"


text \<open>The exported \<open>colorId\<close> falls back to the channel's \<open>id\<close>.\<close>

definition channel_config :: "drum_channel \<Rightarrow> string" where
  "channel_config ch =
     (let colId = (case colorId ch of None \<Rightarrow> int (chId ch) | Some c \<Rightarrow> c)
      in ''|'' @ chType ch @ ''-'' @ show_jsnum (variant ch) @ ''-'' @ show_jsnum (chVolume ch)
         @ ''-'' @ show_int colId)"

definition drum_config :: "drum_synth \<Rightarrow> string" where
  "drum_config d =
     ''drums:'' @ show_jsnum (masterVolume d) @ '':'' @ show_nat (length (channels d))
       @ concat (map channel_config (channels d))"

text \<open>The binary string of one step: one character per channel, in the order of the
  channel array, \<open>1\<close> where \<open>dStep.includes(ch.id)\<close>.\<close>

definition drum_binary :: "drum_channel list \<Rightarrow> nat list \<Rightarrow> string" where
  "drum_binary chs dStep = map (\<lambda>ch. if chId ch \<in> set dStep then CHR ''1'' else CHR ''0'') chs"

text \<open>\<open>block.drums[s] || []\<close>\<close>

definition drum_step :: "block \<Rightarrow> nat \<Rightarrow> nat list" where
  "drum_step b s = (if s < length (drums b) then drums b ! s else [])"

definition drum_cells :: "drum_channel list \<Rightarrow> block list \<Rightarrow> string list" where
  "drum_cells chs bs =
     concat (map (\<lambda>b. map (\<lambda>s. drum_binary chs (drum_step b s)) [0..<totalSteps]) bs)"

definition drum_row :: "drum_synth \<Rightarrow> block list \<Rightarrow> string" where
  "drum_row d bs = csv_row (drum_config d) (drum_cells (channels d) bs)"


definition newline :: char where
  "newline = CHR 0x0A"


section \<open>TimeMatrix: CSV import\<close>

text \<open>\<open>Math.ceil(totalStepsGlobal / this.totalSteps)\<close>, as the number of turns of
  the loop that adds the blocks (none when the step count is not positive).\<close>

definition blocksNeeded :: "int \<Rightarrow> nat" where
  "blocksNeeded tot = nat (- ((- tot) div int totalSteps))"

text \<open>\<open>this.noteMapRev[noteInt]\<close>\<close>

definition noteMapRev_at :: "jsnum \<Rightarrow> string option" where
  "noteMapRev_at v =
     (case v of
        None \<Rightarrow> None
      | Some i \<Rightarrow> (if 0 \<le> i \<and> i < int (length noteMapRev) then Some (noteMapRev ! nat i) else None))"

text \<open>\<open>b.tracks[id][stepIdx] = n\<close>. The track is present and has \<open>totalSteps\<close>
  slots where the import writes (after \<open>registerTrack\<close> on blocks made by
  \<open>addBlock\<close>), and \<open>stepIdx\<close> is below \<open>totalSteps\<close>. (For an id that
  names an inherited property the code writes to the inherited object instead, which is
  outside this model.)\<close>

definition setNote :: "string \<Rightarrow> nat \<Rightarrow> step_note \<Rightarrow> block \<Rightarrow> block" where
  "setNote tid stepIdx n b =
     b\<lparr>tracks := AList.map_entry tid (\<lambda>arr. arr[stepIdx := Some n]) (tracks b)\<rparr>"

text \<open>The body of the loop over the note cells of a bass row.\<close>

definition import_bass_cell :: "string list \<Rightarrow> string \<Rightarrow> nat \<Rightarrow> block list \<Rightarrow> block list" where
  "import_bass_cell cells tid stepGlobal bs =
     (case nth_opt cells (stepGlobal + 1) of
        None \<Rightarrow> bs
      | Some noteData \<Rightarrow>
          if noteData = [] \<or> noteData = ''0'' then bs
          else (let blockIdx = stepGlobal div totalSteps;
                    stepIdx = stepGlobal mod totalSteps;
                    nParts = split_on CHR ''-'' noteData
                in if length nParts = 4
                   then (let noteInt = parseInt (nParts ! 0);
                             noteChar = noteMapRev_at noteInt
                         in case noteChar of
                              None \<Rightarrow> bs
                            | Some nc \<Rightarrow>
                                if blockIdx < length bs \<and> nc \<noteq> []
                                then bs[blockIdx :=
                                       setNote tid stepIdx
                                         \<lparr>noteName = nc, octave = parseInt (nParts ! 1),
                                          slide = (nParts ! 2 = ''1''),
                                          accent = (nParts ! 3 = ''1'')\<rparr>
                                         (bs ! blockIdx)]
                                else bs)
                   else bs))"

text \<open>A loop whose body may raise: \<open>Inl\<close> is the state in which the exception left
  the loop, \<open>Inr\<close> the state after the last turn.\<close>

fun fold_try :: "('a \<Rightarrow> 's \<Rightarrow> 's + 's) \<Rightarrow> 'a list \<Rightarrow> 's \<Rightarrow> 's + 's" where
  "fold_try f [] s = Inr s"
| "fold_try f (x # xs) s = (case f x s of Inl s' \<Rightarrow> Inl s' | Inr s' \<Rightarrow> fold_try f xs s')"

text \<open>\<open>BassDistortion.setTone(val)\<close> hands \<open>500 + Math.pow(val / 100, 2) * 19500\<close>
  to \<open>setTargetAtTime\<close>, and \<open>setPostGain(val)\<close> hands it \<open>val / 50\<close>.\<close>

definition setTone_ok :: "jsnum \<Rightarrow> bool" where
  "setTone_ok val = is_float (map_option (\<lambda>x. 500 + (x / 100) ^ 2 * 19500) (num val))"

definition setPostGain_ok :: "jsnum \<Rightarrow> bool" where
  "setPostGain_ok val = is_float (map_option (\<lambda>x. x / 50) (num val))"

text \<open>\<open>getSynth(id)\<close>, and the ten setters in the order of the calls. Each stores its
  value in \<open>params\<close>. \<open>setDistTone\<close> and \<open>setDistGain\<close> then call the effect
  chain of an initialised synth, which raises on a number that is no float; the
  parameters after the raising one are not set. (\<open>setDistortion\<close> builds a curve of
  44100 floats from its value and does not raise.)\<close>

definition getSynth :: "string \<Rightarrow> bass_synth list \<Rightarrow> bass_synth option" where
  "getSynth tid synths = find (\<lambda>s. synthId s = tid) synths"

definition setParams :: "jsnum list \<Rightarrow> bass_synth \<Rightarrow> bass_synth + bass_synth" where
  "setParams pVals synth =
     (let p1 = (params synth)\<lparr>volume := pVals ! 0, distortion := pVals ! 1,
                 distTone := pVals ! 2\<rparr>
      in if fxChain synth \<and> \<not> setTone_ok (pVals ! 2) then Inl (synth\<lparr>params := p1\<rparr>)
         else (let p2 = p1\<lparr>distGain := pVals ! 3\<rparr>
               in if fxChain synth \<and> \<not> setPostGain_ok (pVals ! 3)
                  then Inl (synth\<lparr>params := p2\<rparr>)
                  else Inr (synth\<lparr>params := p2\<lparr>cutoff := pVals ! 4, resonance := pVals ! 5,
                         envMod := pVals ! 6, decay := pVals ! 7, accentInt := pVals ! 8,
                         waveform := (if pVals ! 9 = Some 1 then ''square''
                                      else ''sawtooth'')\<rparr>\<rparr>)))"

fun update_first :: "('a \<Rightarrow> bool) \<Rightarrow> ('a \<Rightarrow> 'a) \<Rightarrow> 'a list \<Rightarrow> 'a list" where
  "update_first P f [] = []"
| "update_first P f (x # xs) = (if P x then f x # xs else x # update_first P f xs)"

text \<open>A bass row: the synth is looked up or created (\<open>addBassSynth\<close> initialises the
  new synth when the engine has its context, and registers its track), its parameters
  are set when there are at least ten, the track is registered, and the note cells are
  read. When a setter raises, the row ends there, with the synth as the setters left it.
  The ids covered are those that are no property names of \<open>Object.prototype\<close>: for
  such a name \<open>tracks[id]\<close> is the inherited property, which the code would write
  the notes to.\<close>

definition import_bass_line :: "int \<Rightarrow> string list \<Rightarrow> session \<Rightarrow> session + session" where
  "import_bass_line tot cells s =
     (case audioEngine s of
        None \<Rightarrow> Inl s
      | Some synths \<Rightarrow>
          (let parts = split_on CHR '':'' (cells ! 0);
               tid = parts ! 0;
               paramsStr = parts ! 1;
               pVals = map js_Number (split_on CHR ''-'' paramsStr);
               missing = (getSynth tid synths = None);
               synth = (case getSynth tid synths of
                          None \<Rightarrow> \<lparr>synthId = tid, params = defaultParams, fxChain = audioCtx s\<rparr>
                        | Some x \<Rightarrow> x);
               synths1 = (if missing then synths @ [synth] else synths);
               bs1 = (if missing then registerTrack tid (blocks s) else blocks s)
           in case (if length pVals \<ge> 10 then setParams pVals synth else Inr synth) of
                Inl synth' \<Rightarrow>
                  Inl (s\<lparr>blocks := bs1,
                         audioEngine :=
                           Some (update_first (\<lambda>x. synthId x = tid) (\<lambda>x. synth') synths1)\<rparr>)
              | Inr synth' \<Rightarrow>
                  Inr (s\<lparr>blocks := fold (import_bass_cell cells tid) [0..<nat tot]
                                     (registerTrack tid bs1),
                         audioEngine :=
                           Some (update_first (\<lambda>x. synthId x = tid) (\<lambda>x. synth') synths1)\<rparr>)))"

text \<open>One channel entry \<open>parts[c]\<close> of the drum row's first field:
  \<open>Type-Variant-Vol-ColorID\<close>, for the channel \<open>c - 1\<close> if there is one.
  \<open>setChannelVariant\<close> stores the variant, \<open>setChannelVolume\<close> stores the clamped
  volume and then calls the gain node of the channel, if it has been created: the call
  raises for \<open>NaN\<close> (the gain of a volume from 0 to 100 is a float), and the colour
  id is then not set.\<close>

definition import_channel :: "string list \<Rightarrow> nat \<Rightarrow> drum_synth \<Rightarrow> drum_synth + drum_synth" where
  "import_channel parts c d =
     (let chData = split_on CHR ''-'' (remove1 CHR '']'' (remove1 CHR ''['' (parts ! c)));
          chIdx = c - 1
      in if chIdx < length (channels d)
         then (let variant' = parseInt_opt (nth_opt chData 1);
                   vol = parseInt_opt (nth_opt chData 2);
                   colId = parseInt_opt (nth_opt chData 3);
                   ch = channels d ! chIdx;
                   ch1 = ch\<lparr>variant := variant', chVolume := clamp100 vol\<rparr>;
                   ch2 = ch\<lparr>variant := variant', chVolume := clamp100 vol,
                            colorId := Some (case colId of None \<Rightarrow> int chIdx | Some k \<Rightarrow> k)\<rparr>
               in if gainNode ch \<and> clamp100 vol = None
                  then Inl (d\<lparr>channels := (channels d)[chIdx := ch1]\<rparr>)
                  else Inr (d\<lparr>channels := (channels d)[chIdx := ch2]\<rparr>))
         else Inr d)"

text \<open>The body of the loop over the binary cells of the drum row.\<close>

definition active_bits :: "string \<Rightarrow> nat list" where
  "active_bits binary = filter (\<lambda>bit. binary ! bit = CHR ''1'') [0..<length binary]"

definition import_drum_cell :: "string list \<Rightarrow> nat \<Rightarrow> block list \<Rightarrow> block list" where
  "import_drum_cell cells stepGlobal bs =
     (case nth_opt cells (stepGlobal + 1) of
        None \<Rightarrow> bs
      | Some binary \<Rightarrow>
          if binary = [] then bs
          else (let blockIdx = stepGlobal div totalSteps;
                    stepIdx = stepGlobal mod totalSteps
                in if blockIdx < length bs
                   then bs[blockIdx := (bs ! blockIdx)
                          \<lparr>drums := (drums (bs ! blockIdx))[stepIdx := active_bits binary]\<rparr>]
                   else bs))"

text \<open>\<open>setMasterVolume(val)\<close> stores the clamped volume and then calls the master
  gain node, if \<open>init\<close> has created it: the call raises for \<open>NaN\<close>.\<close>

definition setMasterVolume :: "jsnum \<Rightarrow> drum_synth \<Rightarrow> drum_synth + drum_synth" where
  "setMasterVolume val d =
     (if masterGain d \<and> clamp100 val = None then Inl (d\<lparr>masterVolume := clamp100 val\<rparr>)
      else Inr (d\<lparr>masterVolume := clamp100 val\<rparr>))"

text \<open>The drum row: the master volume, the channel entries, and then the grid. An
  exception leaves the row before the grid is read.\<close>

definition import_drum_line :: "int \<Rightarrow> string list \<Rightarrow> session \<Rightarrow> session + session" where
  "import_drum_line tot cells s =
     (let parts = split_on CHR ''|'' (cells ! 0);
          mainHeader = split_on CHR '':'' (parts ! 0);
          masterVol = parseInt_opt (nth_opt mainHeader 1);
          bs = fold (import_drum_cell cells) [0..<nat tot] (blocks s)
      in case drumSynth s of
           None \<Rightarrow> Inr (s\<lparr>blocks := bs\<rparr>)
         | Some d \<Rightarrow>
             (case setMasterVolume masterVol d of
                Inl d1 \<Rightarrow> Inl (s\<lparr>drumSynth := Some d1\<rparr>)
              | Inr d1 \<Rightarrow>
                  (case fold_try (import_channel parts) [1..<length parts] d1 of
                     Inl d2 \<Rightarrow> Inl (s\<lparr>drumSynth := Some d2\<rparr>)
                   | Inr d2 \<Rightarrow> Inr (s\<lparr>blocks := bs, drumSynth := Some d2\<rparr>))))"

definition starts_with :: "string \<Rightarrow> string \<Rightarrow> bool" where
  "starts_with p s \<longleftrightarrow> take (length p) s = p"

definition import_line :: "int \<Rightarrow> string \<Rightarrow> session \<Rightarrow> session + session" where
  "import_line tot line s =
     (let cells = split_on CHR '','' line;
          configCell = cells ! 0
      in if starts_with ''drums'' configCell then import_drum_line tot cells s
         else if CHR '':'' \<in> set configCell then import_bass_line tot cells s
         else Inr s)"

text \<open>\<open>importFromCSV(csvData)\<close>: the result of the call and the session after it.
  The body of the \<open>try\<close> raises at its two \<open>throw\<close> statements, which come before
  anything is assigned, and wherever a setter raises while the rows are read, which is
  after the tempo and the blocks have been replaced; the \<open>catch\<close> turns all of them
  into the result \<open>false\<close>. The numbers read by \<open>parseInt\<close> and \<open>Number\<close> are
  exact here, as they are in the code up to \<open>2^53\<close>.\<close>

definition importFromCSV :: "string \<Rightarrow> session \<Rightarrow> bool \<times> session" where
  "importFromCSV csvData s =
     (if csvData = [] \<or> audioEngine s = None then (False, s)
      else (let lines = split_on newline (js_trim csvData) in
            if length lines < 2 then (False, s)
            else (let headerCells = split_on CHR '','' (lines ! 0);
                      meta = split_on CHR ''-'' (headerCells ! 0);
                      b = parseInt (meta ! 0);
                      tot = parseInt_opt (nth_opt meta 1)
                  in case b of
                       None \<Rightarrow> (False, s)
                     | Some b' \<Rightarrow>
                         (case tot of
                            None \<Rightarrow> (False, s)
                          | Some tot' \<Rightarrow>
                              (case fold_try (import_line tot') (tl lines)
                                      (s\<lparr>bpm := b', blocks := (addBlock ^^ blocksNeeded tot') []\<rparr>) of
                                 Inl s' \<Rightarrow> (False, s')
                               | Inr s' \<Rightarrow> (True, s'))))))"

text \<open>What the round trip compares: the note at a block, track and step, and the drum
  hits at a block and step.\<close>

definition note_at :: "block list \<Rightarrow> nat \<Rightarrow> string \<Rightarrow> nat \<Rightarrow> step_note option" where
  "note_at bs b tid st = (if b < length bs then track_slot (bs ! b) tid st else None)"

definition drums_at :: "block list \<Rightarrow> nat \<Rightarrow> nat \<Rightarrow> nat list" where
  "drums_at bs b st = (if b < length bs then drum_step (bs ! b) st else [])"

section \<open>BassSynth and DrumSynth: whether a note can be played\<close>

text \<open>
  \<open>play\<close> builds audio nodes and sets their parameters; what matters to its caller is
  whether it returns or raises. The names that every object inherits from
  \<open>Object.prototype\<close> are listed because \<open>play\<close> looks the pitch up in an object
  literal: for such a name the lookup does not give \<open>undefined\<close> but a function or an
  object, and the arithmetic on it gives \<open>NaN\<close>.
\<close>

definition objectPrototypeNames :: "string list" where
  "objectPrototypeNames = [''constructor'', ''__defineGetter__'', ''__defineSetter__'',
     ''hasOwnProperty'', ''__lookupGetter__'', ''__lookupSetter__'', ''isPrototypeOf'',
     ''propertyIsEnumerable'', ''toString'', ''valueOf'', ''__proto__'', ''toLocaleString'']"

definition playNoteMap :: "(string \<times> int) list" where
  "playNoteMap = [(''C'', 0), (''C#'', 1), (''D'', 2), (''D#'', 3), (''E'', 4), (''F'', 5),
     (''F#'', 6), (''G'', 7), (''G#'', 8), (''A'', 9), (''A#'', 10), (''B'', 11)]"

text \<open>\<open>noteMap[note]\<close>: \<open>None\<close> is \<open>undefined\<close>, \<open>Some None\<close> a value that is
  no number.\<close>

definition noteIndex :: "string \<Rightarrow> jsreal option" where
  "noteIndex nm =
     (case map_of playNoteMap nm of
        Some k \<Rightarrow> Some (Some (real_of_int k))
      | None \<Rightarrow> (if nm \<in> set objectPrototypeNames then Some None else None))"

text \<open>\<open>440 * Math.pow(2, (midiNote - 69) / 12)\<close> for
  \<open>midiNote = (octave + 1) * 12 + noteIndex\<close>.\<close>

definition noteFreq :: "jsnum \<Rightarrow> jsreal \<Rightarrow> jsreal" where
  "noteFreq oct idx =
     (case num oct of
        None \<Rightarrow> None
      | Some oc \<Rightarrow> (case idx of
                      None \<Rightarrow> None
                    | Some k \<Rightarrow> Some (440 * 2 powr (((oc + 1) * 12 + k - 69) / 12))))"

text \<open>The oscillator: \<open>osc.type = 'custom'\<close> raises; the frequency is set at
  \<open>time\<close>, which must not be negative, and must be a float; with a slide the
  frequency is the target of an exponential ramp, which must not be a float zero. (With
  a slide the ramp starts from \<open>lastFreq\<close>, the frequency of the synth's previous
  note, which is not kept here.)\<close>

definition osc_raises :: "string \<Rightarrow> jsreal \<Rightarrow> bool \<Rightarrow> real \<Rightarrow> bool" where
  "osc_raises wave freq sl time \<longleftrightarrow>
     wave = ''custom'' \<or> time < 0 \<or> \<not> is_float freq \<or>
     (sl \<and> (case freq of None \<Rightarrow> False | Some f \<Rightarrow> \<bar>f\<bar> \<le> 1 / 2 ^ 150))"

text \<open>\<open>BassFilter.create(ctx, time, params, duration, slide, accent, accentInt)\<close>
  with the duration 0.25: the resonance goes to \<open>filter.Q.value\<close>, the base and
  the peak frequency to automation methods, and \<open>decayTime / 3.5\<close> is the time
  constant of \<open>setTargetAtTime\<close>, which must not be negative. \<open>Math.min\<close> of a
  number and \<open>NaN\<close> is \<open>NaN\<close>, and a comparison with \<open>NaN\<close> is false.\<close>

definition filter_raises :: "bass_params \<Rightarrow> bool \<Rightarrow> bool \<Rightarrow> real \<Rightarrow> bool" where
  "filter_raises p sl ac time =
     (let accFactor = map_option (\<lambda>x. x / 100) (num (accentInt p));
          baseFreq = map_option (\<lambda>x. 60 + (x / 100) * (x / 100) * 9000) (num (cutoff p));
          qVal0 = num (resonance p);
          qVal1 = (if ac
                   then (case qVal0 of
                           None \<Rightarrow> None
                         | Some q \<Rightarrow> map_option (\<lambda>a. min 28 (q + (5 + q * (3 / 2) * a))) accFactor)
                   else qVal0);
          qVal2 = (if (case baseFreq of None \<Rightarrow> False | Some f \<Rightarrow> f > 5000)
                   then map_option (\<lambda>q. q * (6 / 10)) qVal1 else qVal1);
          qv = map_option (min 30) qVal2;
          env0 = map_option (\<lambda>x. x / 100) (num (envMod p));
          envStrength = (if ac
                         then (case env0 of
                                 None \<Rightarrow> None
                               | Some e \<Rightarrow> map_option (\<lambda>a. e + (3 / 10) * a) accFactor)
                         else env0);
          peakFreq = (case baseFreq of
                        None \<Rightarrow> None
                      | Some f \<Rightarrow> map_option (\<lambda>e. min 22050 (f + e * 8000)) envStrength);
          decayTime = (if sl then Some ((1 / 4) * (12 / 10))
                       else if ac then map_option (\<lambda>a. 2 / 10 - (1 / 10) * a) accFactor
                       else map_option (\<lambda>x. 1 / 10 + (x / 100) * (8 / 10)) (num (decay p)));
          timeConstant = map_option (\<lambda>x. x / (35 / 10)) decayTime
      in \<not> is_float qv \<or> \<not> is_float baseFreq \<or> time < 0 \<or> \<not> is_float peakFreq \<or>
         \<not> is_float timeConstant \<or>
         (case timeConstant of None \<Rightarrow> False | Some c \<Rightarrow> c < 0))"

text \<open>The amplifier: the peak volume \<open>0.6 * volume / 100\<close>, or \<open>0.85 * volume / 100\<close>
  with an accent, is the target of a ramp.\<close>

definition vca_raises :: "bass_params \<Rightarrow> bool \<Rightarrow> bool" where
  "vca_raises p ac \<longleftrightarrow>
     \<not> is_float (map_option (\<lambda>x. (if ac then 85 / 100 else 6 / 10) * (x / 100)) (num (volume p)))"

text \<open>\<open>synth.play(note, octave, time, 0.25, slide, accent)\<close> returns at once for a
  synth that is not initialised and for a pitch that \<open>noteMap\<close> does not have.\<close>

definition bassPlay_raises :: "bass_synth \<Rightarrow> step_note \<Rightarrow> real \<Rightarrow> bool" where
  "bassPlay_raises synth n time =
     (if \<not> fxChain synth then False
      else (case noteIndex (noteName n) of
              None \<Rightarrow> False
            | Some idx \<Rightarrow>
                osc_raises (waveform (params synth)) (noteFreq (octave n) idx) (slide n) time \<or>
                filter_raises (params synth) (slide n) (accent n) time \<or>
                vca_raises (params synth) (accent n)))"

text \<open>\<open>drumSynth.play(channelId, time)\<close> returns at once without a context, for a
  channel that does not exist or is switched off, and for a type it has no sound for.
  The sounds are built from constants; they are started at \<open>time\<close>, which must not be
  negative, and connected to the gain node of the channel.\<close>

definition drumTypes :: "string list" where
  "drumTypes = [''kick'', ''snare'', ''clap'', ''chat'', ''ohat'', ''ltom'', ''htom'', ''crash'',
     ''perc'']"

definition drumPlay_raises :: "drum_synth \<Rightarrow> nat \<Rightarrow> real \<Rightarrow> bool" where
  "drumPlay_raises d channelId time =
     (if \<not> masterGain d then False
      else if channelId \<ge> length (channels d) then False
      else (let ch = channels d ! channelId
            in if variant ch = Some 0 then False
               else if chType ch \<in> set drumTypes then time < 0 \<or> \<not> gainNode ch
               else False))"

section \<open>AudioEngine: the look-ahead scheduler\<close>

text \<open>
  The scheduler's state is \<open>nextNoteTime\<close> of the engine and \<open>currentPlayStep\<close>,
  \<open>currentPlayBlock\<close> of \<open>AppState\<close>. The entries pushed on \<open>window.visualQueue\<close>
  are kept as a log (the display drains the queue at its own pace, which is not
  modelled), and so are the calls of \<open>drumSynth.play\<close> and of a bass synth's
  \<open>play\<close>. Times are real numbers: the sums the code computes in floating point are
  exact here.
\<close>

datatype trigger = DrumPlay nat real | SynthPlay string step_note real

record sched =
  nextNoteTime :: real
  currentPlayStep :: nat
  currentPlayBlock :: nat
  visualQueue :: "(nat \<times> nat \<times> real) list"
  triggers :: "trigger list"

definition lookahead :: real where
  "lookahead = 1 / 10"

text \<open>The calls that \<open>scheduleNote\<close> makes for a step, in their order, each with
  whether it raises: the drum hits of the step if \<open>window.drumSynth\<close> exists, then for
  every track with a note at the step the first synth of \<open>this.bassSynths\<close> that has
  the track's id, if there is one.\<close>

definition drumCalls :: "drum_synth option \<Rightarrow> nat list \<Rightarrow> real \<Rightarrow> (trigger \<times> bool) list" where
  "drumCalls dsynth ds time =
     (case dsynth of
        None \<Rightarrow> []
      | Some d \<Rightarrow> map (\<lambda>i. (DrumPlay i time, drumPlay_raises d i time)) ds)"

definition bassCalls ::
  "bass_synth list \<Rightarrow> (string \<times> step_note option list) list \<Rightarrow> nat \<Rightarrow> real
     \<Rightarrow> (trigger \<times> bool) list" where
  "bassCalls synths trks step time =
     concat (map (\<lambda>(tid, arr).
        (case (if step < length arr then arr ! step else None) of
           None \<Rightarrow> []
         | Some noteInfo \<Rightarrow>
             (case find (\<lambda>s. synthId s = tid) synths of
                None \<Rightarrow> []
              | Some synth \<Rightarrow>
                  [(SynthPlay tid noteInfo time, bassPlay_raises synth noteInfo time)])))
       trks)"

text \<open>The calls that are made, up to and including the first that raises, and whether
  one raised.\<close>

fun performed :: "(trigger \<times> bool) list \<Rightarrow> trigger list \<times> bool" where
  "performed [] = ([], False)"
| "performed ((t, r) # cs) =
     (if r then ([t], True) else (t # fst (performed cs), snd (performed cs)))"

text \<open>\<open>scheduleNote(step, block, time)\<close>: whether it raised, and the state it left.
  The empty object that \<open>getStepData\<close> returns for a missing block has neither
  \<open>drums\<close> nor \<open>tracks\<close>, so nothing is played for it.\<close>

definition scheduleNote ::
  "drum_synth option \<Rightarrow> bass_synth list \<Rightarrow> block list \<Rightarrow> nat \<Rightarrow> nat \<Rightarrow> real \<Rightarrow> sched
     \<Rightarrow> bool \<times> sched" where
  "scheduleNote dsynth synths bs step blk time s =
     (let s1 = s\<lparr>visualQueue := visualQueue s @ [(step, blk, time)]\<rparr> in
      case getStepData step blk bs of
        None \<Rightarrow> (False, s1)
      | Some (trks, ds) \<Rightarrow>
          (let p = performed (drumCalls dsynth ds time @ bassCalls synths trks step time)
           in (snd p, s1\<lparr>triggers := triggers s1 @ fst p\<rparr>)))"

text \<open>\<open>advanceNote()\<close>, with the tempo \<open>AppState.bpm\<close> and the current number of
  blocks. For the tempo 0 the code's step duration is infinite, while the division here
  gives 0; the properties below are about a positive tempo.\<close>

definition secPerStep :: "int \<Rightarrow> real" where
  "secPerStep tempo = 60 / real_of_int tempo / 4"

definition advanceNote :: "int \<Rightarrow> nat \<Rightarrow> sched \<Rightarrow> sched" where
  "advanceNote tempo nblocks s =
     (let s1 = s\<lparr>nextNoteTime := nextNoteTime s + secPerStep tempo,
                  currentPlayStep := currentPlayStep s + 1\<rparr>
      in if currentPlayStep s1 \<ge> totalSteps
         then (let s2 = s1\<lparr>currentPlayStep := 0, currentPlayBlock := currentPlayBlock s1 + 1\<rparr>
               in if currentPlayBlock s2 \<ge> nblocks then s2\<lparr>currentPlayBlock := 0\<rparr> else s2)
         else s1)"

text \<open>One turn of the loop of \<open>scheduler()\<close>: \<open>scheduleNote\<close>, and \<open>advanceNote\<close>
  unless \<open>scheduleNote\<close> raised. Nothing catches the exception: it ends the loop and
  the handler of the tick, and the next tick calls \<open>scheduler()\<close> again. \<open>now\<close> is
  \<open>this.ctx.currentTime\<close> at the tick. The loop need not end (it does not for a
  negative tempo), so it returns an option.\<close>

definition turn_raises :: "drum_synth option \<Rightarrow> bass_synth list \<Rightarrow> block list \<Rightarrow> sched \<Rightarrow> bool" where
  "turn_raises dsynth synths bs s =
     fst (scheduleNote dsynth synths bs (currentPlayStep s) (currentPlayBlock s)
            (nextNoteTime s) s)"

definition sched_iter ::
  "int \<Rightarrow> drum_synth option \<Rightarrow> bass_synth list \<Rightarrow> block list \<Rightarrow> sched \<Rightarrow> sched" where
  "sched_iter tempo dsynth synths bs s =
     (let r = scheduleNote dsynth synths bs (currentPlayStep s) (currentPlayBlock s)
                (nextNoteTime s) s
      in if fst r then snd r else advanceNote tempo (length bs) (snd r))"

partial_function (option) scheduler ::
  "int \<Rightarrow> drum_synth option \<Rightarrow> bass_synth list \<Rightarrow> block list \<Rightarrow> real \<Rightarrow> sched
     \<Rightarrow> sched option" where
  "scheduler tempo dsynth synths bs now s =
     (if nextNoteTime s < now + lookahead
      then (if turn_raises dsynth synths bs s
            then Some (sched_iter tempo dsynth synths bs s)
            else scheduler tempo dsynth synths bs now (sched_iter tempo dsynth synths bs s))
      else Some s)"

text \<open>\<open>startPlayback()\<close> at audio time \<open>now\<close> with \<open>AppState.editingBlock\<close>.\<close>

definition startPlayback :: "real \<Rightarrow> nat \<Rightarrow> sched \<Rightarrow> sched" where
  "startPlayback now editingBlock s =
     s\<lparr>currentPlayStep := 0, currentPlayBlock := editingBlock,
       nextNoteTime := now + 1 / 10, visualQueue := []\<rparr>"

text \<open>A run: the worker's ticks arrive at arbitrary audio times, and the pattern may
  have been edited before each of them.\<close>

fun run_ticks ::
  "int \<Rightarrow> drum_synth option \<Rightarrow> bass_synth list \<Rightarrow> (real \<times> block list) list \<Rightarrow> sched
     \<Rightarrow> sched option" where
  "run_ticks tempo dsynth synths [] s = Some s"
| "run_ticks tempo dsynth synths ((now, bs) # ticks) s =
     (case scheduler tempo dsynth synths bs now s of
        None \<Rightarrow> None
      | Some s' \<Rightarrow> run_ticks tempo dsynth synths ticks s')"

text \<open>The times of consecutive entries differ by \<open>d\<close>.\<close>

fun step_gaps :: "real \<Rightarrow> real list \<Rightarrow> bool" where
  "step_gaps d (a # b # ts) = (b - a = d \<and> step_gaps d (b # ts))"
| "step_gaps d ts = True"

definition queue_times :: "sched \<Rightarrow> real list" where
  "queue_times s = map (\<lambda>(step, blk, t). t) (visualQueue s)"

definition idleSched :: sched where
  "idleSched = \<lparr>nextNoteTime = 0, currentPlayStep = 0, currentPlayBlock = 0,
     visualQueue = [], triggers = []\<rparr>"

section \<open>MidiIO: export\<close>

text \<open>
  Bytes are natural numbers below 256. The arrays of numbers that the export builds are
  turned into bytes by \<open>new Uint8Array(file)\<close> at the end; here every element is
  reduced modulo 256 (and \<open>NaN\<close> to 0) where it is produced, which gives the same
  file. Tick times are natural numbers; the code's bit operations on them agree with
  \<open>div\<close> and \<open>mod\<close> below \<open>2^31\<close> ticks, that is for any pattern of less than a
  million blocks.
\<close>

definition MThd :: "nat list" where
  "MThd = [0x4D, 0x54, 0x68, 0x64]"

definition MTrk :: "nat list" where
  "MTrk = [0x4D, 0x54, 0x72, 0x6B]"

definition ticksPerBeat :: nat where
  "ticksPerBeat = 480"

text \<open>One step is \<open>ticksPerBeat / 4\<close> ticks.\<close>

definition stepTicks :: nat where
  "stepTicks = ticksPerBeat div 4"

definition js_byte :: "jsnum \<Rightarrow> nat" where
  "js_byte v = (case v of None \<Rightarrow> 0 | Some i \<Rightarrow> nat (i mod 256))"

text \<open>\<open>toVLQ(val)\<close>: the low seven bits first, then the higher groups with the
  continuation bit, and the buffer reversed.\<close>

fun vlq_more :: "nat \<Rightarrow> nat list" where
  "vlq_more v = (if v = 0 then [] else (v mod 128 + 128) # vlq_more (v div 128))"

declare vlq_more.simps [simp del]

definition toVLQ :: "nat \<Rightarrow> nat list" where
  "toVLQ val = rev (val mod 128 # vlq_more (val div 128))"

text \<open>An event \<open>{ t, type, note, vel }\<close>.\<close>

record midi_event =
  ev_t :: nat
  ev_type :: nat
  ev_note :: jsnum
  ev_vel :: nat

text \<open>\<open>getMidiNote(note, octave)\<close>: \<open>NaN\<close> for a name that is not in the map.\<close>

definition midiNoteTable :: "(string \<times> int) list" where
  "midiNoteTable = [(''C'', 0), (''C#'', 1), (''D'', 2), (''D#'', 3), (''E'', 4), (''F'', 5),
     (''F#'', 6), (''G'', 7), (''G#'', 8), (''A'', 9), (''A#'', 10), (''B'', 11)]"

definition getMidiNote :: "string \<Rightarrow> jsnum \<Rightarrow> jsnum" where
  "getMidiNote nm oct =
     (case oct of
        None \<Rightarrow> None
      | Some oc \<Rightarrow> (case map_of midiNoteTable nm of
                      None \<Rightarrow> None
                    | Some k \<Rightarrow> Some ((oc + 1) * 12 + k)))"

text \<open>\<open>compileTrack(events)\<close>: the events sorted by time (the sort is stable), each
  as delta time, status, note and velocity, and the end-of-track event.\<close>

fun compile_events :: "nat \<Rightarrow> midi_event list \<Rightarrow> nat list" where
  "compile_events lastTime [] = []"
| "compile_events lastTime (e # es) =
     toVLQ (ev_t e - lastTime) @ [ev_type e mod 256, js_byte (ev_note e), ev_vel e mod 256]
       @ compile_events (ev_t e) es"

definition compileTrack :: "midi_event list \<Rightarrow> nat list" where
  "compileTrack events = compile_events 0 (sort_key ev_t events) @ [0x00, 0xFF, 0x2F, 0x00]"

text \<open>\<open>bpmToTempoBytes(bpm)\<close>: \<open>Math.round(60000000 / bpm)\<close> rounds half up.\<close>

definition bpmToTempoBytes :: "int \<Rightarrow> nat list" where
  "bpmToTempoBytes b =
     (let microSecs = (120000000 + b) div (2 * b)
      in [nat ((microSecs div 65536) mod 256), nat ((microSecs div 256) mod 256),
          nat (microSecs mod 256)])"

definition buildMidiFile :: "nat list list \<Rightarrow> nat list" where
  "buildMidiFile trks =
     MThd @ [0, 0, 0, 6] @ [0, 1]
       @ [(length trks div 256) mod 256, length trks mod 256]
       @ [(ticksPerBeat div 256) mod 256, ticksPerBeat mod 256]
       @ concat (map (\<lambda>t. MTrk
            @ [(length t div 16777216) mod 256, (length t div 65536) mod 256,
               (length t div 256) mod 256, length t mod 256]
            @ t) trks)"

text \<open>The drum events of the pattern: a note-on with velocity 100 on channel 9 and a
  note-off 60 ticks later for every hit.\<close>

definition drumNote :: "nat \<Rightarrow> nat" where
  "drumNote hitId =
     (let note = 36;
          note = (if hitId = 1 then 38 else note);
          note = (if hitId = 2 then 42 else note);
          note = (if hitId = 3 then 46 else note);
          note = (if hitId > 3 then 48 + hitId else note)
      in note)"

definition drumEvents :: "block list \<Rightarrow> midi_event list" where
  "drumEvents bs =
     concat (map (\<lambda>(bIdx, b).
       concat (map (\<lambda>(sIdx, stepDrums).
         (if length stepDrums > 0
          then concat (map (\<lambda>hitId.
                 [\<lparr>ev_t = bIdx * 16 * stepTicks + sIdx * stepTicks, ev_type = 0x99,
                   ev_note = Some (int (drumNote hitId)), ev_vel = 100\<rparr>,
                  \<lparr>ev_t = bIdx * 16 * stepTicks + sIdx * stepTicks + 60, ev_type = 0x89,
                   ev_note = Some (int (drumNote hitId)), ev_vel = 0\<rparr>]) stepDrums)
          else []))
         (enumerate 0 (drums b))))
       (enumerate 0 bs))"

text \<open>The keys of all blocks in the order in which a \<open>Set\<close> first receives them.\<close>

definition allTrackKeys :: "block list \<Rightarrow> string list" where
  "allTrackKeys bs = rev (remdups (rev (concat (map (\<lambda>b. map fst (tracks b)) bs))))"

text \<open>\<open>const ch = chCounter++; if (ch === 9) chCounter++;\<close> for every key in turn.\<close>

fun assignChannels :: "nat \<Rightarrow> string list \<Rightarrow> (string \<times> nat) list" where
  "assignChannels chCounter [] = []"
| "assignChannels chCounter (k # ks) =
     (k, chCounter) # assignChannels (if chCounter = 9 then chCounter + 2 else chCounter + 1) ks"

definition bassEvents :: "block list \<Rightarrow> string \<Rightarrow> nat \<Rightarrow> midi_event list" where
  "bassEvents bs key midiCh =
     concat (map (\<lambda>(bIdx, b).
       (case map_of (tracks b) key of
          None \<Rightarrow> []
        | Some trackData \<Rightarrow>
            concat (map (\<lambda>(sIdx, noteData).
              (case noteData of
                 None \<Rightarrow> []
               | Some n \<Rightarrow>
                   [\<lparr>ev_t = bIdx * 16 * stepTicks + sIdx * stepTicks,
                     ev_type = or 0x90 midiCh,
                     ev_note = getMidiNote (noteName n) (octave n),
                     ev_vel = (if accent n then 127 else 90)\<rparr>,
                    \<lparr>ev_t = bIdx * 16 * stepTicks + sIdx * stepTicks + (stepTicks - 10),
                     ev_type = or 0x80 midiCh,
                     ev_note = getMidiNote (noteName n) (octave n),
                     ev_vel = 0\<rparr>]))
              (enumerate 0 trackData))))
       (enumerate 0 bs))"

text \<open>\<open>exportMidi(blocks, bpm)\<close>: \<open>None\<close> is \<open>null\<close>.\<close>

definition midiTracks :: "block list \<Rightarrow> int \<Rightarrow> nat list list" where
  "midiTracks bs b =
     [[0x00, 0xFF, 0x51, 0x03] @ bpmToTempoBytes b @ [0x00, 0xFF, 0x2F, 0x00]]
       @ (if length (drumEvents bs) > 0 then [compileTrack (drumEvents bs)] else [])
       @ map (\<lambda>(key, midiCh). compileTrack (bassEvents bs key midiCh))
           (assignChannels 0 (allTrackKeys bs))"

definition exportMidi :: "block list \<Rightarrow> int \<Rightarrow> nat list option" where
  "exportMidi bs b = (if length bs = 0 then None else Some (buildMidiFile (midiTracks bs b)))"

section \<open>MidiIO: import\<close>

text \<open>
  The file is an array of bytes; reading past its end gives \<open>undefined\<close>
  (\<open>None\<close>). On a byte, \<open>b & 0x7F\<close> is \<open>b mod 128\<close>, \<open>b & 0x80\<close> is non-zero
  when \<open>128 \<le> b\<close>, \<open>b & 0xF0\<close> is \<open>16 * (b div 16)\<close> and \<open>b & 0x0F\<close> is
  \<open>b mod 16\<close>; on \<open>undefined\<close> all of them are 0.
\<close>

definition rd :: "nat list \<Rightarrow> nat \<Rightarrow> nat option" where
  "rd data p = (if p < length data then Some (data ! p) else None)"

definition rdi :: "nat list \<Rightarrow> int \<Rightarrow> nat option" where
  "rdi data p = (if 0 \<le> p then rd data (nat p) else None)"

definition low7 :: "nat option \<Rightarrow> nat" where
  "low7 b = (case b of None \<Rightarrow> 0 | Some x \<Rightarrow> x mod 128)"

definition bit7 :: "nat option \<Rightarrow> bool" where
  "bit7 b = (case b of None \<Rightarrow> False | Some x \<Rightarrow> 128 \<le> x mod 256)"

definition statusKind :: "nat option \<Rightarrow> nat" where
  "statusKind st = (case st of None \<Rightarrow> 0 | Some x \<Rightarrow> 16 * ((x mod 256) div 16))"

definition statusChannel :: "nat option \<Rightarrow> nat" where
  "statusChannel st = (case st of None \<Rightarrow> 0 | Some x \<Rightarrow> x mod 16)"

definition byteOr0 :: "nat option \<Rightarrow> nat" where
  "byteOr0 b = (case b of None \<Rightarrow> 0 | Some x \<Rightarrow> x)"

text \<open>The delta time: \<open>do { if (p >= end) break; b = data[p++]; dt = (dt << 7) |
  (b & 0x7F); } while (b & 0x80)\<close>. The result is the value and the new position.\<close>

function read_vlq :: "nat list \<Rightarrow> nat \<Rightarrow> nat \<Rightarrow> nat \<Rightarrow> nat \<times> nat" where
  "read_vlq data end p dt =
     (if p \<ge> end then (dt, p)
      else (let b = rd data p;
                dt' = dt * 128 + low7 b
            in if bit7 b then read_vlq data end (p + 1) dt' else (dt', p + 1)))"
  by pat_completeness auto
termination
  by (relation "measure (\<lambda>(data, end, p, dt). end - p)") auto

declare read_vlq.simps [simp del]

text \<open>The length of a meta event, read without a bound: \<open>do { bb = data[p++]; len =
  (len << 7) | (bb & 0x7F); } while (bb & 0x80)\<close>. It stops at the end of the file at
  the latest, where the byte is \<open>undefined\<close>.\<close>

function read_len :: "nat list \<Rightarrow> nat \<Rightarrow> nat \<Rightarrow> nat \<times> nat" where
  "read_len data p len =
     (let bb = rd data p;
          len' = len * 128 + low7 bb
      in if bit7 bb then read_len data (p + 1) len' else (len', p + 1))"
  by pat_completeness auto
termination
  by (relation "measure (\<lambda>(data, p, len). length data - p)")
     (auto simp: bit7_def rd_def split: option.splits if_splits)

declare read_len.simps [simp del]

text \<open>\<open>importedData = { drums: {}, bass: {} }\<close>, both keyed by the absolute step:
  the drum hits of a step, and the note number and velocity of its bass note.\<close>

record imported =
  imp_drums :: "(nat \<times> nat list) list"
  imp_bass :: "(nat \<times> (nat \<times> nat)) list"

definition emptyImported :: imported where
  "emptyImported = \<lparr>imp_drums = [], imp_bass = []\<rparr>"

text \<open>A note-on with a velocity above 0 at \<open>absTime\<close>:
  \<open>Math.round(absTime / (this.ticksPerBeat / 4))\<close> is the step; channel 9 is the
  drums, any other channel the one bass stream.\<close>

definition internalDrum :: "nat \<Rightarrow> nat" where
  "internalDrum note =
     (if note = 38 \<or> note = 40 then 1
      else if note = 42 \<or> note = 44 \<or> note = 46 then 2
      else if note \<ge> 47 then 3
      else 0)"

definition recordNoteOn :: "nat \<Rightarrow> nat \<Rightarrow> nat \<Rightarrow> nat \<Rightarrow> imported \<Rightarrow> imported" where
  "recordNoteOn absTime ch note vel acc =
     (let step = (2 * absTime + stepTicks) div (2 * stepTicks) in
      if ch = 9
      then (let hits = (case map_of (imp_drums acc) step of None \<Rightarrow> [] | Some h \<Rightarrow> h);
                internalId = internalDrum note;
                hits' = (if internalId \<in> set hits then hits else hits @ [internalId])
            in acc\<lparr>imp_drums := AList.update step hits' (imp_drums acc)\<rparr>)
      else acc\<lparr>imp_bass := AList.update step (note, vel) (imp_bass acc)\<rparr>)"

text \<open>The loop over the events of one track chunk, from position \<open>p\<close> to \<open>end\<close>.
  It need not end: a data byte where a status is expected, under a running status that
  no branch handles, moves the position back to where the delta time began.\<close>

partial_function (option) parse_track ::
  "nat list \<Rightarrow> nat \<Rightarrow> nat \<Rightarrow> nat \<Rightarrow> nat option \<Rightarrow> imported \<Rightarrow> imported option" where
  "parse_track data end p absTime lastStatus acc =
     (if p < end
      then (let r = read_vlq data end p 0;
                absTime' = absTime + fst r;
                p1 = snd r
            in if p1 \<ge> end then Some acc
               else (let status0 = rd data p1;
                         running = (case status0 of None \<Rightarrow> False | Some x \<Rightarrow> x < 0x80);
                         status = (if running then lastStatus else status0);
                         p2 = (if running then p1 - 1 else p1 + 1);
                         lastStatus' = (if running then lastStatus else status0)
                     in if statusKind status = 0x90
                        then (let note = rd data p2;
                                  vel = rd data (p2 + 1);
                                  acc' = (if byteOr0 vel > 0
                                          then recordNoteOn absTime' (statusChannel status)
                                                 (byteOr0 note) (byteOr0 vel) acc
                                          else acc)
                              in parse_track data end (p2 + 2) absTime' lastStatus' acc')
                        else if statusKind status = 0x80 then
                          parse_track data end (p2 + 2) absTime' lastStatus' acc
                        else if statusKind status = 0xB0 then
                          parse_track data end (p2 + 2) absTime' lastStatus' acc
                        else if statusKind status = 0xC0 then
                          parse_track data end (p2 + 1) absTime' lastStatus' acc
                        else if statusKind status = 0xE0 then
                          parse_track data end (p2 + 2) absTime' lastStatus' acc
                        else if status = Some 0xFF then
                          (let l = read_len data (p2 + 1) 0
                           in parse_track data end (snd l + fst l) absTime' lastStatus' acc)
                        else parse_track data end p2 absTime' lastStatus' acc))
      else Some acc)"

declare parse_track.simps [code]

text \<open>The length of a chunk: \<open>(data[p] << 24) | (data[p + 1] << 16) | (data[p + 2] <<
  8) | data[p + 3]\<close>, a signed 32-bit number.\<close>

definition chunkLen :: "nat list \<Rightarrow> int \<Rightarrow> int" where
  "chunkLen data p =
     (let u = int (byteOr0 (rdi data p)) * 16777216 + int (byteOr0 (rdi data (p + 1))) * 65536
              + int (byteOr0 (rdi data (p + 2))) * 256 + int (byteOr0 (rdi data (p + 3)))
      in if u \<ge> 2147483648 then u - 4294967296 else u)"

text \<open>The loop over the chunks. The position after a chunk is \<open>end\<close>, which a
  negative length puts before the chunk, so this loop need not end either.\<close>

partial_function (option) parse_chunks :: "nat list \<Rightarrow> int \<Rightarrow> imported \<Rightarrow> imported option" where
  "parse_chunks data p acc =
     (if p < int (length data)
      then (if rdi data p \<noteq> Some 0x4D \<or> rdi data (p + 1) \<noteq> Some 0x54
               \<or> rdi data (p + 2) \<noteq> Some 0x72 \<or> rdi data (p + 3) \<noteq> Some 0x6B
            then Some acc
            else (case parse_track data (nat (p + 8 + chunkLen data (p + 4))) (nat (p + 8))
                         0 (Some 0) acc of
                    None \<Rightarrow> None
                  | Some acc' \<Rightarrow> parse_chunks data (p + 8 + chunkLen data (p + 4)) acc'))
      else Some acc)"

declare parse_chunks.simps [code]

text \<open>\<open>parseMidi(arrayBuffer)\<close>: \<open>None\<close> when the call does not return,
  \<open>Some None\<close> for the result \<open>null\<close>.\<close>

definition parseMidi :: "nat list \<Rightarrow> imported option option" where
  "parseMidi data =
     (if rd data 0 \<noteq> Some 0x4D \<or> rd data 1 \<noteq> Some 0x54 \<or> rd data 2 \<noteq> Some 0x68
         \<or> rd data 3 \<noteq> Some 0x64
      then Some None
      else map_option Some (parse_chunks data 14 emptyImported))"

section \<open>UIController: applying an imported MIDI file\<close>

definition NOTE_NAMES :: "string list" where
  "NOTE_NAMES = [''C'', ''C#'', ''D'', ''D#'', ''E'', ''F'', ''F#'', ''G'', ''G#'', ''A'',
     ''A#'', ''B'']"

text \<open>The bass note of one step: the track of the active view (\<open>bass-1\<close> in the
  drum view) is registered where the block lacks it, and the note is stored.\<close>

definition applyBassStep :: "string \<Rightarrow> nat \<times> (nat \<times> nat) \<Rightarrow> block list \<Rightarrow> block list" where
  "applyBassStep activeView entry bs =
     (case entry of (step, (note, vel)) \<Rightarrow>
        (let blockIdx = step div 16;
             stepIdx = step mod 16
         in if blockIdx < length bs
            then (let nMod = note mod 12;
                      oct = int (note div 12) - 1;
                      nm = NOTE_NAMES ! nMod;
                      targetId = (if activeView = ''drum'' then ''bass-1'' else activeView);
                      bs1 = (if map_of (tracks (bs ! blockIdx)) targetId = None
                             then registerTrack targetId bs else bs)
                  in bs1[blockIdx :=
                       setNote targetId stepIdx
                         \<lparr>noteName = nm, octave = Some oct, slide = False, accent = (vel > 100)\<rparr>
                         (bs1 ! blockIdx)])
            else bs))"

definition applyDrumStep :: "nat \<times> nat list \<Rightarrow> block list \<Rightarrow> block list" where
  "applyDrumStep entry bs =
     (case entry of (step, hits) \<Rightarrow>
        (let blockIdx = step div 16;
             stepIdx = step mod 16
         in if blockIdx < length bs
            then bs[blockIdx := (bs ! blockIdx)\<lparr>drums := (drums (bs ! blockIdx))[stepIdx := hits]\<rparr>]
            else bs))"

text \<open>The handler of the loaded file: the blocks are rebuilt for the highest step
  found, then filled. The keys of an object that are integers are enumerated in
  ascending order.\<close>

definition applyMidi :: "string \<Rightarrow> imported \<Rightarrow> block list" where
  "applyMidi activeView d =
     (let maxStep = fold max (map fst (imp_bass d) @ map fst (imp_drums d)) 0;
          totalStepsFound = maxStep + 1;
          blocksNeeded = (totalStepsFound + 15) div 16;
          bs0 = (addBlock ^^ blocksNeeded) [];
          bs1 = fold (applyBassStep activeView) (sort_key fst (imp_bass d)) bs0;
          bs2 = fold applyDrumStep (sort_key fst (imp_drums d)) bs1
      in bs2)"

text \<open>Export followed by import, as the two buttons do it: \<open>None\<close> when the export
  gives \<open>null\<close>, the parser does not return or returns \<open>null\<close>.\<close>

definition midiRoundTrip :: "string \<Rightarrow> block list \<Rightarrow> int \<Rightarrow> block list option" where
  "midiRoundTrip activeView bs b =
     (case exportMidi bs b of
        None \<Rightarrow> None
      | Some file \<Rightarrow>
          (case parseMidi file of
             Some (Some d) \<Rightarrow> Some (applyMidi activeView d)
           | _ \<Rightarrow> None))"

section \<open>Invariants and sample data\<close>

text \<open>The invariant of the block array: it is never empty, all blocks have the
  track keys of the first one, and every track array has \<open>totalSteps\<close> slots.\<close>

definition store_inv :: "block list \<Rightarrow> bool" where
  "store_inv bs \<longleftrightarrow>
     bs \<noteq> [] \<and>
     (\<forall>b \<in> set bs. track_keys b = track_keys (hd bs) \<and>
        (\<forall>k arr. (k, arr) \<in> set (tracks b) \<longrightarrow> length arr = totalSteps))"

definition demoBlock :: block where
  "demoBlock = \<lparr>tracks = [(''bass-1'', [Some \<lparr>noteName = ''C'', octave = Some 3, slide = False, accent = True\<rparr>, None])],
     drums = [[0, 2], []]\<rparr>"

definition sched_inv :: "real \<Rightarrow> sched \<Rightarrow> bool" where
  "sched_inv d s \<longleftrightarrow>
     step_gaps d (queue_times s) \<and>
     (visualQueue s \<noteq> [] \<longrightarrow> nextNoteTime s = last (queue_times s) + d)"

definition staleSched :: sched where
  "staleSched = \<lparr>nextNoteTime = 1, currentPlayStep = 14, currentPlayBlock = 1,
     visualQueue = [], triggers = []\<rparr>"

definition reservedPitchCsv :: string where
  "reservedPitchCsv = ''120-16-1,1,2\<newline>bass-1:85-20-100-60-40-8-60-40-50-0,0-3-0-0,1-3-1''"


text \<open>What the round trip through the CSV text needs of a session, and the notions its
  proof is written with: a track that is present with \<open>totalSteps\<close> slots, the note a
  cell is read as, the drum hits a binary cell is read as, a block as \<open>addBlock\<close>
  makes it on an empty array, and the invariant of the import while it reads the bass
  rows.\<close>

definition has_track :: "string \<Rightarrow> block \<Rightarrow> bool" where
  "has_track tid b \<longleftrightarrow> (\<exists>arr. map_of (tracks b) tid = Some arr \<and> length arr = totalSteps)"

definition parse_bass_cell :: "string \<Rightarrow> step_note option" where
  "parse_bass_cell noteData =
     (if noteData = [] \<or> noteData = ''0'' then None
      else (let nParts = split_on CHR ''-'' noteData
            in if length nParts = 4
               then (case noteMapRev_at (parseInt (nParts ! 0)) of
                       None \<Rightarrow> None
                     | Some nc \<Rightarrow>
                         if nc \<noteq> []
                         then Some \<lparr>noteName = nc, octave = parseInt (nParts ! 1),
                                    slide = (nParts ! 2 = ''1''), accent = (nParts ! 3 = ''1'')\<rparr>
                         else None)
               else None))"




definition cell_note :: "string list \<Rightarrow> nat \<Rightarrow> step_note option" where
  "cell_note cells sg = (case nth_opt cells (sg + 1) of None \<Rightarrow> None | Some c \<Rightarrow> parse_bass_cell c)"






definition set_channel_fields :: "drum_channel \<Rightarrow> drum_channel \<Rightarrow> drum_channel" where
  "set_channel_fields src ch = ch\<lparr>variant := variant src, chVolume := chVolume src, colorId := colorId src\<rparr>"

definition cell_bits :: "string list \<Rightarrow> nat \<Rightarrow> nat list option" where
  "cell_bits cells sg =
     (case nth_opt cells (sg + 1) of
        None \<Rightarrow> None
      | Some binary \<Rightarrow> if binary = [] then None else Some (active_bits binary))"

definition setDrums :: "nat \<Rightarrow> nat list \<Rightarrow> block \<Rightarrow> block" where
  "setDrums st ds b = b\<lparr>drums := (drums b)[st := ds]\<rparr>"









definition demoSession :: session where
  "demoSession = \<lparr>bpm = 140,
     blocks = [\<lparr>tracks = [(''bass-1'',
                  [Some \<lparr>noteName = ''C'', octave = Some 3, slide = False, accent = True\<rparr>,
                   None, Some \<lparr>noteName = ''F#'', octave = Some 2, slide = True, accent = False\<rparr>]
                  @ replicate 13 None)],
               drums = [[0, 2], [], [8]] @ replicate 13 []\<rparr>],
     audioEngine = Some [\<lparr>synthId = ''bass-1'', params = defaultParams, fxChain = True\<rparr>],
     drumSynth = Some (defaultDrumSynth\<lparr>channels := (channels defaultDrumSynth)
        [2 := (channels defaultDrumSynth ! 2)\<lparr>variant := Some 0, colorId := Some 5\<rparr>,
         5 := (channels defaultDrumSynth ! 5)\<lparr>colorId := Some 2\<rparr>]\<rparr>),
     audioCtx = True\<rparr>"

text \<open>A text that ends after the word \<open>drums\<close>, and a text whose one note has an
  octave that is no number; the synths of a session; and the pattern that the import of
  the second text leaves.\<close>

definition truncatedCsv :: string where
  "truncatedCsv = ''120-16-1\<newline>drums''"

definition nanOctaveCsv :: string where
  "nanOctaveCsv = ''120-16-1\<newline>bass-1:85-20-100-60-40-8-60-40-50-0,1-x-0-0''"

definition bassSynths :: "session \<Rightarrow> bass_synth list" where
  "bassSynths s = (case audioEngine s of None \<Rightarrow> [] | Some synths \<Rightarrow> synths)"

definition nanOctavePattern :: "block list" where
  "nanOctavePattern = blocks (snd (importFromCSV nanOctaveCsv initialSession))"

section \<open>Properties of the block operations\<close>

lemma store_inv_initial: "store_inv initialBlocks"
  by (simp add: store_inv_def initialBlocks_def addBlock_def track_keys_def emptyTrack_def)

lemma store_invI:
  assumes "bs \<noteq> []"
    and "\<And>b. b \<in> set bs \<Longrightarrow> track_keys b = K"
    and "\<And>b k arr. b \<in> set bs \<Longrightarrow> (k, arr) \<in> set (tracks b) \<Longrightarrow> length arr = totalSteps"
  shows "store_inv bs"
proof -
  have "hd bs \<in> set bs" using assms(1) by simp
  then have "track_keys (hd bs) = K" by (rule assms(2))
  then show ?thesis
    unfolding store_inv_def using assms by blast
qed

lemma store_invD:
  assumes "store_inv bs"
  shows "bs \<noteq> []"
    and "b \<in> set bs \<Longrightarrow> track_keys b = track_keys (hd bs)"
    and "b \<in> set bs \<Longrightarrow> (k, arr) \<in> set (tracks b) \<Longrightarrow> length arr = totalSteps"
  using assms unfolding store_inv_def by blast+

lemma store_inv_addBlock:
  assumes "store_inv bs"
  shows "store_inv (addBlock bs)"
proof (rule store_invI [where K = "track_keys (hd bs)"])
  define nb where "nb = \<lparr>tracks = map (\<lambda>k. (k, emptyTrack)) (map fst (tracks (hd bs))),
        drums = replicate totalSteps []\<rparr>"
  from assms have ne: "bs \<noteq> []" by (rule store_invD)
  then have ab: "addBlock bs = bs @ [nb]"
    by (simp add: addBlock_def nb_def)
  show "addBlock bs \<noteq> []" by (simp add: ab)
  have nk: "track_keys nb = track_keys (hd bs)"
    by (simp add: track_keys_def nb_def comp_def)
  have nl: "(k, arr) \<in> set (tracks nb) \<Longrightarrow> length arr = totalSteps" for k arr
    by (auto simp: nb_def emptyTrack_def)
  show "track_keys b = track_keys (hd bs)" if "b \<in> set (addBlock bs)" for b
    using that nk store_invD(2) [OF assms] by (auto simp: ab)
  show "length arr = totalSteps" if "b \<in> set (addBlock bs)" "(k, arr) \<in> set (tracks b)" for b k arr
    using that nl store_invD(3) [OF assms] by (auto simp: ab)
qed

lemma store_inv_map:
  assumes inv: "store_inv bs"
    and keys: "\<And>b. track_keys (f b) = g (track_keys b)"
    and lens: "\<And>b k arr. (k, arr) \<in> set (tracks (f b)) \<Longrightarrow>
                 (\<forall>k' arr'. (k', arr') \<in> set (tracks b) \<longrightarrow> length arr' = totalSteps) \<Longrightarrow>
                 length arr = totalSteps"
  shows "store_inv (map f bs)"
proof (rule store_invI [where K = "g (track_keys (hd bs))"])
  show "map f bs \<noteq> []" using store_invD(1) [OF inv] by simp
  show "track_keys b = g (track_keys (hd bs))" if "b \<in> set (map f bs)" for b
  proof -
    from that obtain b0 where "b0 \<in> set bs" "b = f b0" by auto
    then show ?thesis using keys store_invD(2) [OF inv] by simp
  qed
  show "length arr = totalSteps" if "b \<in> set (map f bs)" "(k, arr) \<in> set (tracks b)" for b k arr
  proof -
    from that obtain b0 where b0: "b0 \<in> set bs" "b = f b0" by auto
    have "\<forall>k' arr'. (k', arr') \<in> set (tracks b0) \<longrightarrow> length arr' = totalSteps"
      using store_invD(3) [OF inv b0(1)] by blast
    then show ?thesis using lens that(2) b0(2) by blast
  qed
qed

lemma store_inv_registerTrack:
  assumes "store_inv bs"
  shows "store_inv (registerTrack t bs)"
  unfolding registerTrack_def
proof (rule store_inv_map [OF assms, where g = "insert t"])
  fix b :: block
  show "track_keys (if map_of (tracks b) t = None
          then b\<lparr>tracks := tracks b @ [(t, emptyTrack)]\<rparr> else b) = insert t (track_keys b)"
    by (auto simp: track_keys_def map_of_eq_None_iff)
next
  fix b :: block and k arr
  assume "(k, arr) \<in> set (tracks (if map_of (tracks b) t = None
          then b\<lparr>tracks := tracks b @ [(t, emptyTrack)]\<rparr> else b))"
    and "\<forall>k' arr'. (k', arr') \<in> set (tracks b) \<longrightarrow> length arr' = totalSteps"
  then show "length arr = totalSteps"
    by (auto simp: emptyTrack_def split: if_splits)
qed

lemma store_inv_removeTrack:
  assumes "store_inv bs"
  shows "store_inv (removeTrack t bs)"
  unfolding removeTrack_def
proof (rule store_inv_map [OF assms, where g = "\<lambda>K. K - {t}"])
  fix b :: block
  show "track_keys (b\<lparr>tracks := AList.delete t (tracks b)\<rparr>) = track_keys b - {t}"
    by (auto simp: track_keys_def AList.delete_eq)
next
  fix b :: block and k arr
  assume "(k, arr) \<in> set (tracks (b\<lparr>tracks := AList.delete t (tracks b)\<rparr>))"
    and "\<forall>k' arr'. (k', arr') \<in> set (tracks b) \<longrightarrow> length arr' = totalSteps"
  then show "length arr = totalSteps"
    by (auto simp: AList.delete_eq)
qed

lemma track_keys_clearContents: "track_keys (clearContents b) = track_keys b"
  by (force simp: track_keys_def clearContents_def)

lemma lengths_clearContents:
  "(k, arr) \<in> set (tracks (clearContents b)) \<Longrightarrow>
   \<exists>arr0. (k, arr0) \<in> set (tracks b) \<and> arr = map (\<lambda>_. None) arr0"
  by (auto simp: clearContents_def)

lemma store_inv_removeBlock:
  assumes "store_inv bs"
  shows "store_inv (removeBlock i bs)"
proof (cases "length bs \<le> 1")
  case True
  with store_invD(1) [OF assms] obtain b where bs: "bs = [b]"
    by (cases bs) auto
  have rb: "removeBlock i bs = map clearContents bs"
    by (simp add: bs removeBlock_def clearBlock_def)
  show ?thesis
    unfolding rb
  proof (rule store_inv_map [OF assms, where g = "\<lambda>K. K"])
    show "track_keys (clearContents b) = track_keys b" for b
      by (rule track_keys_clearContents)
    show "length arr = totalSteps"
      if "(k, arr) \<in> set (tracks (clearContents b))"
        and "\<forall>k' arr'. (k', arr') \<in> set (tracks b) \<longrightarrow> length arr' = totalSteps"
      for b k arr
      using lengths_clearContents [OF that(1)] that(2) by auto
  qed
next
  case False
  then have len: "2 \<le> length bs" by simp
  define start where "start = nat (if i < 0 then max (int (length bs) + i) 0 else min i (int (length bs)))"
  have rb: "removeBlock i bs = take start bs @ drop (Suc start) bs"
    using False by (simp add: removeBlock_def splice1_def Let_def start_def)
  have sub: "b \<in> set (removeBlock i bs) \<Longrightarrow> b \<in> set bs" for b
    unfolding rb using set_take_subset [of start bs] set_drop_subset [of "Suc start" bs] by auto
  have ne: "removeBlock i bs \<noteq> []"
    unfolding rb using len by (cases "start = 0") auto
  show ?thesis
  proof (rule store_invI [where K = "track_keys (hd bs)"])
    show "removeBlock i bs \<noteq> []" by (rule ne)
    show "track_keys b = track_keys (hd bs)" if "b \<in> set (removeBlock i bs)" for b
      using store_invD(2) [OF assms sub [OF that]] .
    show "length arr = totalSteps"
      if "b \<in> set (removeBlock i bs)" "(k, arr) \<in> set (tracks b)" for b k arr
      using store_invD(3) [OF assms sub [OF that(1)] that(2)] .
  qed
qed

lemma store_inv_run_ops: "store_inv bs \<Longrightarrow> store_inv (run_ops ops bs)"
  unfolding run_ops_def
proof (induction ops arbitrary: bs)
  case Nil
  then show ?case by simp
next
  case (Cons op ops)
  have "store_inv (apply_op op bs)"
    using Cons.prems
    by (cases op)
       (simp_all add: store_inv_addBlock store_inv_removeBlock store_inv_registerTrack
          store_inv_removeTrack)
  then show ?case using Cons.IH by simp
qed

text \<open>
  Claim C5. Starting from the store as constructed (one block with the one default
  track), after any finite sequence of \<open>addBlock\<close>, \<open>removeBlock\<close>,
  \<open>registerTrack\<close> and \<open>removeTrack\<close> calls, any two blocks have the same set of track
  identifiers, and every track array of every block has exactly \<open>totalSteps\<close> = 16
  slots.
\<close>

theorem block_invariant_after_ops:
  "\<forall>b \<in> set (run_ops ops initialBlocks).
     (\<forall>b' \<in> set (run_ops ops initialBlocks). track_keys b = track_keys b') \<and>
     (\<forall>arr \<in> snd ` set (tracks b). length arr = totalSteps \<and> totalSteps = 16)"
proof (intro ballI conjI)
  have inv: "store_inv (run_ops ops initialBlocks)"
    by (rule store_inv_run_ops [OF store_inv_initial])
  fix b assume b: "b \<in> set (run_ops ops initialBlocks)"
  show "track_keys b = track_keys b'" if "b' \<in> set (run_ops ops initialBlocks)" for b'
    using store_invD(2) [OF inv b] store_invD(2) [OF inv that] by simp
  show "length arr = totalSteps" if "arr \<in> snd ` set (tracks b)" for arr
  proof -
    from that obtain k where "(k, arr) \<in> set (tracks b)" by auto
    then show ?thesis by (rule store_invD(3) [OF inv b])
  qed
  show "totalSteps = 16" by (simp add: totalSteps_def)
qed

theorem block_invariant_after_ops_witness:
  "track_keys (run_ops [AddBlock, RegisterTrack ''bass-2'', RemoveTrack ''bass-1''] initialBlocks ! 0) =
   track_keys (run_ops [AddBlock, RegisterTrack ''bass-2'', RemoveTrack ''bass-1''] initialBlocks ! 1) \<and>
   length (snd (tracks (run_ops [AddBlock, RegisterTrack ''bass-2'', RemoveTrack ''bass-1''] initialBlocks ! 1) ! 0)) = 16"
proof -
  let ?bs = "run_ops [AddBlock, RegisterTrack ''bass-2'', RemoveTrack ''bass-1''] initialBlocks"
  have len: "length ?bs = 2"
    by (simp add: run_ops_def initialBlocks_def addBlock_def registerTrack_def removeTrack_def)
  have m0: "?bs ! 0 \<in> set ?bs" and m1: "?bs ! 1 \<in> set ?bs"
    using len by simp_all
  have tr: "tracks (?bs ! 1) = [(''bass-2'', emptyTrack)]"
    by (simp add: run_ops_def initialBlocks_def addBlock_def registerTrack_def removeTrack_def
        AList.delete_eq)
  have m2: "snd (tracks (?bs ! 1) ! 0) \<in> snd ` set (tracks (?bs ! 1))"
    unfolding tr by simp
  from block_invariant_after_ops [THEN bspec, OF m0]
  have "track_keys (?bs ! 0) = track_keys (?bs ! 1)"
    using m1 by blast
  moreover from block_invariant_after_ops [THEN bspec, OF m1]
  have "length (snd (tracks (?bs ! 1) ! 0)) = 16"
    using m2 by (metis)
  ultimately show ?thesis by simp
qed

lemma clearContents_props:
  "map fst (tracks (clearContents b)) = map fst (tracks b)"
  "map (length \<circ> snd) (tracks (clearContents b)) = map (length \<circ> snd) (tracks b)"
  "(k, arr) \<in> set (tracks (clearContents b)) \<Longrightarrow> n \<in> set arr \<Longrightarrow> n = None"
  "length (drums (clearContents b)) = length (drums b)"
  "d \<in> set (drums (clearContents b)) \<Longrightarrow> d = []"
  by (auto simp: clearContents_def)

text \<open>
  Claim C6. With exactly one block, \<open>removeBlock\<close> keeps the block count at 1 and
  clears the block in place: the track keys and the array lengths are kept, every note
  slot is \<open>null\<close> and every drum list is empty. With more than one block and a valid
  index \<open>j\<close>, the block at \<open>j\<close> is removed and the later blocks move down by one.
\<close>

theorem removeBlock_last_block_protection:
  "(length bs = 1 \<longrightarrow>
      removeBlock i bs = [clearContents (hd bs)] \<and>
      length (removeBlock i bs) = 1 \<and>
      map fst (tracks (clearContents (hd bs))) = map fst (tracks (hd bs)) \<and>
      map (length \<circ> snd) (tracks (clearContents (hd bs))) = map (length \<circ> snd) (tracks (hd bs)) \<and>
      (\<forall>k arr. (k, arr) \<in> set (tracks (clearContents (hd bs))) \<longrightarrow> (\<forall>n \<in> set arr. n = None)) \<and>
      length (drums (clearContents (hd bs))) = length (drums (hd bs)) \<and>
      (\<forall>d \<in> set (drums (clearContents (hd bs))). d = [])) \<and>
   (1 < length bs \<and> j < length bs \<longrightarrow>
      removeBlock (int j) bs = take j bs @ drop (Suc j) bs \<and>
      length (removeBlock (int j) bs) = length bs - 1 \<and>
      (\<forall>m < length bs - 1. removeBlock (int j) bs ! m = (if m < j then bs ! m else bs ! Suc m)))"
proof (intro conjI impI)
  assume one: "length bs = 1"
  then obtain b where bs: "bs = [b]" by (cases bs) auto
  show "removeBlock i bs = [clearContents (hd bs)]"
    by (simp add: bs removeBlock_def clearBlock_def)
  then show "length (removeBlock i bs) = 1" by simp
  show "map fst (tracks (clearContents (hd bs))) = map fst (tracks (hd bs))"
    and "map (length \<circ> snd) (tracks (clearContents (hd bs))) = map (length \<circ> snd) (tracks (hd bs))"
    and "length (drums (clearContents (hd bs))) = length (drums (hd bs))"
    by (rule clearContents_props)+
  show "\<forall>k arr. (k, arr) \<in> set (tracks (clearContents (hd bs))) \<longrightarrow> (\<forall>n \<in> set arr. n = None)"
    using clearContents_props(3) by blast
  show "\<forall>d \<in> set (drums (clearContents (hd bs))). d = []"
    using clearContents_props(5) by blast
next
  assume many: "1 < length bs \<and> j < length bs"
  then show eq: "removeBlock (int j) bs = take j bs @ drop (Suc j) bs"
    by (simp add: removeBlock_def splice1_def Let_def min_def)
  from many show "length (removeBlock (int j) bs) = length bs - 1"
    unfolding eq by auto
  from many show "\<forall>m < length bs - 1. removeBlock (int j) bs ! m = (if m < j then bs ! m else bs ! Suc m)"
    unfolding eq by (auto simp: nth_append min_def)
qed

theorem removeBlock_last_block_protection_witness:
  "removeBlock 0 [demoBlock] = [\<lparr>tracks = [(''bass-1'', [None, None])], drums = [[], []]\<rparr>] \<and>
   removeBlock 1 [demoBlock, clearContents demoBlock, demoBlock] = [demoBlock, demoBlock]"
proof -
  have a: "length [demoBlock] = 1" by simp
  have b: "1 < length [demoBlock, clearContents demoBlock, demoBlock] \<and>
           1 < length [demoBlock, clearContents demoBlock, demoBlock]" by simp
  from removeBlock_last_block_protection [of "[demoBlock]" 0 0] a
  have "removeBlock 0 [demoBlock] = [clearContents (hd [demoBlock])]" by blast
  moreover
  from removeBlock_last_block_protection [of "[demoBlock, clearContents demoBlock, demoBlock]" 0 1] b
  have "removeBlock (int 1) [demoBlock, clearContents demoBlock, demoBlock] =
        take 1 [demoBlock, clearContents demoBlock, demoBlock] @
        drop (Suc 1) [demoBlock, clearContents demoBlock, demoBlock]" by blast
  ultimately show ?thesis
    by (simp add: clearContents_def demoBlock_def)
qed

text \<open>
  Claim C10. \<open>moveBlock\<close> range-checks only the destination \<open>idx + dir\<close>. For a
  block array of length \<open>n \<ge> 1\<close>, \<open>moveBlock(n, -1)\<close> returns true, leaves
  \<open>undefined\<close> at position \<open>n - 1\<close> and the former last block at position \<open>n\<close>,
  so the array has length \<open>n + 1\<close>.
\<close>

theorem moveBlock_checks_destination_only:
  "fst (moveBlock idx dir bs) = (0 \<le> idx + dir \<and> idx + dir < int (length bs)) \<and>
   (xs \<noteq> [] \<longrightarrow>
      moveBlock (int (length xs)) (- 1) (map Some xs) =
        (True, map Some (butlast xs) @ [None, Some (last xs)]) \<and>
      length (snd (moveBlock (int (length xs)) (- 1) (map Some xs))) = length xs + 1)"
proof (intro conjI impI)
  show "fst (moveBlock idx dir bs) = (0 \<le> idx + dir \<and> idx + dir < int (length bs))"
    by (auto simp: moveBlock_def Let_def)
next
  assume ne: "xs \<noteq> []"
  then obtain ys y where xs: "xs = ys @ [y]"
    by (cases xs rule: rev_cases) auto
  show eq: "moveBlock (int (length xs)) (- 1) (map Some xs) =
        (True, map Some (butlast xs) @ [None, Some (last xs)])"
    by (simp add: xs moveBlock_def Let_def js_get_def js_set_def nth_append list_update_append)
  show "length (snd (moveBlock (int (length xs)) (- 1) (map Some xs))) = length xs + 1"
    unfolding eq using ne by simp
qed

theorem moveBlock_checks_destination_only_witness:
  "moveBlock 2 (- 1) [Some (1::nat), Some 2] = (True, [Some 1, None, Some 2])"
proof -
  have ne: "[1::nat, 2] \<noteq> []" by simp
  from moveBlock_checks_destination_only [of 0 0 "[]" "[1::nat, 2]"] ne
  have "moveBlock (int (length [1::nat, 2])) (- 1) (map Some [1::nat, 2]) =
        (True, map Some (butlast [1::nat, 2]) @ [None, Some (last [1::nat, 2])])" by blast
  then show ?thesis by simp
qed

section \<open>Properties of the scheduler\<close>

lemma scheduleNote_stale:
  assumes "length bs \<le> blk"
  shows "scheduleNote d synths bs st blk t s =
           (False, s\<lparr>visualQueue := visualQueue s @ [(st, blk, t)]\<rparr>)"
  using assms by (simp add: scheduleNote_def getStepData_def)

lemma advanceNote_time:
  "nextNoteTime (advanceNote tempo n s) = nextNoteTime s + secPerStep tempo"
  "visualQueue (advanceNote tempo n s) = visualQueue s"
  "triggers (advanceNote tempo n s) = triggers s"
  by (simp_all add: advanceNote_def Let_def)

lemma advanceNote_pos:
  "currentPlayStep (advanceNote tempo n s) =
     (if Suc (currentPlayStep s) \<ge> totalSteps then 0 else Suc (currentPlayStep s))"
  "currentPlayBlock (advanceNote tempo n s) =
     (if Suc (currentPlayStep s) \<ge> totalSteps
      then (if Suc (currentPlayBlock s) \<ge> n then 0 else Suc (currentPlayBlock s))
      else currentPlayBlock s)"
  by (simp_all add: advanceNote_def Let_def)

lemma scheduleNote_pos:
  "currentPlayStep (snd (scheduleNote d synths bs st blk t s)) = currentPlayStep s"
  "currentPlayBlock (snd (scheduleNote d synths bs st blk t s)) = currentPlayBlock s"
  "nextNoteTime (snd (scheduleNote d synths bs st blk t s)) = nextNoteTime s"
  "visualQueue (snd (scheduleNote d synths bs st blk t s)) = visualQueue s @ [(st, blk, t)]"
  by (simp_all add: scheduleNote_def Let_def split: option.split prod.split)

text \<open>
  Claim C3 fails in the program. The text \<open>nanOctaveCsv\<close> is imported into the
  session that the bootstrap leaves; its one cell \<open>1-x-0-0\<close> is read as the note C
  with the octave \<open>NaN\<close> at step 0. Playback is started at the tempo 120 that the
  text sets, and two ticks arrive, at the audio times 0.025 and 0.05. At each of them
  \<open>scheduleNote\<close> logs step 0 for the time 0.1 and calls \<open>play\<close> of the synth
  \<open>bass-1\<close>, which raises on the frequency \<open>NaN\<close>; \<open>advanceNote\<close> is not
  reached. The two consecutive scheduled step events have the same time, where the claim
  demands a difference of \<open>60 / 120 / 4\<close> seconds.
\<close>

theorem scheduler_repeats_step_after_raise:
  "importFromCSV nanOctaveCsv initialSession =
     (True, initialSession\<lparr>bpm := 120, blocks := nanOctavePattern\<rparr>) \<and>
   nanOctavePattern =
     [\<lparr>tracks = [(''bass-1'',
         Some \<lparr>noteName = ''C'', octave = None, slide = False, accent = False\<rparr>
           # replicate 15 None)],
       drums = replicate 16 []\<rparr>] \<and>
   run_ticks 120 (drumSynth initialSession) (bassSynths initialSession)
       [(1 / 40, nanOctavePattern), (1 / 20, nanOctavePattern)] (startPlayback 0 0 idleSched) =
     Some \<lparr>nextNoteTime = 1 / 10, currentPlayStep = 0, currentPlayBlock = 0,
            visualQueue = [(0, 0, 1 / 10), (0, 0, 1 / 10)],
            triggers =
              [SynthPlay ''bass-1''
                 \<lparr>noteName = ''C'', octave = None, slide = False, accent = False\<rparr> (1 / 10),
               SynthPlay ''bass-1''
                 \<lparr>noteName = ''C'', octave = None, slide = False, accent = False\<rparr> (1 / 10)]\<rparr> \<and>
   \<not> step_gaps (60 / real_of_int 120 / 4) [1 / 10, 1 / 10]"
proof -
  let ?n = "\<lparr>noteName = ''C'', octave = None, slide = False, accent = False\<rparr>"
  let ?p = "[\<lparr>tracks = [(''bass-1'', Some ?n # replicate 15 None)], drums = replicate 16 []\<rparr>]"
  have imp: "importFromCSV nanOctaveCsv initialSession =
      (True, initialSession\<lparr>bpm := 120, blocks := ?p\<rparr>)"
    by code_simp
  then have pat: "nanOctavePattern = ?p"
    by (simp add: nanOctavePattern_def)
  have syn: "bassSynths initialSession =
      [\<lparr>synthId = ''bass-1'', params = defaultParams, fxChain = True\<rparr>]"
    by (simp add: bassSynths_def initialSession_def)
  have raises: "bassPlay_raises \<lparr>synthId = ''bass-1'', params = defaultParams, fxChain = True\<rparr>
      ?n t" for t
    by (simp add: bassPlay_raises_def noteIndex_def playNoteMap_def noteFreq_def num_def
        osc_raises_def is_float_def)
  have turn: "scheduleNote (drumSynth initialSession) (bassSynths initialSession) ?p 0 0 t s =
      (True, s\<lparr>visualQueue := visualQueue s @ [(0, 0, t)],
               triggers := triggers s @ [SynthPlay ''bass-1'' ?n t]\<rparr>)" for t s
    unfolding syn
    by (simp add: scheduleNote_def getStepData_def drumCalls_def bassCalls_def raises
        initialSession_def split: option.split)
  let ?s0 = "startPlayback 0 0 idleSched"
  let ?s1 = "\<lparr>nextNoteTime = 1 / 10, currentPlayStep = 0, currentPlayBlock = 0,
       visualQueue = [(0, 0, 1 / 10)], triggers = [SynthPlay ''bass-1'' ?n (1 / 10)]\<rparr>"
  let ?s2 = "\<lparr>nextNoteTime = 1 / 10, currentPlayStep = 0, currentPlayBlock = 0,
       visualQueue = [(0, 0, 1 / 10), (0, 0, 1 / 10)],
       triggers = [SynthPlay ''bass-1'' ?n (1 / 10), SynthPlay ''bass-1'' ?n (1 / 10)]\<rparr>"
  have t1: "scheduler 120 (drumSynth initialSession) (bassSynths initialSession) ?p (1 / 40) ?s0 = Some ?s1"
    by (subst scheduler.simps)
       (simp add: startPlayback_def idleSched_def lookahead_def turn_raises_def sched_iter_def turn)
  have t2: "scheduler 120 (drumSynth initialSession) (bassSynths initialSession) ?p (1 / 20) ?s1 =
      Some ?s2"
    by (subst scheduler.simps) (simp add: lookahead_def turn_raises_def sched_iter_def turn)
  have "run_ticks 120 (drumSynth initialSession) (bassSynths initialSession)
       [(1 / 40, ?p), (1 / 20, ?p)] ?s0 = Some ?s2"
    by (simp add: t1 t2)
  then show ?thesis
    using imp by (simp add: pat)
qed

lemma sched_iter_stale_eq:
  assumes "length bs \<le> currentPlayBlock s"
  shows "sched_iter tempo h ids bs s =
           advanceNote tempo (length bs)
             (s\<lparr>visualQueue := visualQueue s
                  @ [(currentPlayStep s, currentPlayBlock s, nextNoteTime s)]\<rparr>)"
  by (simp add: sched_iter_def scheduleNote_stale [OF assms])

lemma sched_iter_stale_pos:
  assumes "length bs \<le> currentPlayBlock s"
  shows "currentPlayStep (sched_iter tempo h ids bs s) =
     (if Suc (currentPlayStep s) \<ge> totalSteps then 0 else Suc (currentPlayStep s))"
  and "currentPlayBlock (sched_iter tempo h ids bs s) =
     (if Suc (currentPlayStep s) \<ge> totalSteps
      then (if Suc (currentPlayBlock s) \<ge> length bs then 0 else Suc (currentPlayBlock s))
      else currentPlayBlock s)"
  by (simp_all add: sched_iter_stale_eq [OF assms] advanceNote_pos)

lemma sched_iter_within_bar:
  "length bs \<le> currentPlayBlock s \<Longrightarrow> currentPlayStep s + k < totalSteps \<Longrightarrow>
     currentPlayBlock ((sched_iter tempo h ids bs ^^ k) s) = currentPlayBlock s \<and>
     currentPlayStep ((sched_iter tempo h ids bs ^^ k) s) = currentPlayStep s + k"
  by (induction k) (simp_all add: sched_iter_stale_pos)

lemma sched_iter_bar_end:
  assumes stale: "length bs \<le> currentPlayBlock s"
    and "currentPlayStep s < totalSteps"
  shows "currentPlayBlock ((sched_iter tempo h ids bs ^^ (totalSteps - currentPlayStep s)) s) =
           (if Suc (currentPlayBlock s) \<ge> length bs then 0 else Suc (currentPlayBlock s))"
    and "currentPlayStep ((sched_iter tempo h ids bs ^^ (totalSteps - currentPlayStep s)) s) = 0"
proof -
  obtain k where k: "totalSteps - currentPlayStep s = Suc k"
    using assms(2) by (cases "totalSteps - currentPlayStep s") auto
  then have lt: "currentPlayStep s + k < totalSteps" and eq: "Suc (currentPlayStep s + k) = totalSteps"
    by simp_all
  note w = sched_iter_within_bar [OF stale lt, of tempo h ids]
  have st: "length bs \<le> currentPlayBlock ((sched_iter tempo h ids bs ^^ k) s)"
    using w stale by simp
  show "currentPlayBlock ((sched_iter tempo h ids bs ^^ (totalSteps - currentPlayStep s)) s) =
           (if Suc (currentPlayBlock s) \<ge> length bs then 0 else Suc (currentPlayBlock s))"
    unfolding k using w eq by (simp add: sched_iter_stale_pos [OF st])
  show "currentPlayStep ((sched_iter tempo h ids bs ^^ (totalSteps - currentPlayStep s)) s) = 0"
    unfolding k using w eq by (simp add: sched_iter_stale_pos [OF st])
qed

lemma sched_iter_stale:
  assumes "length bs \<le> currentPlayBlock s"
  shows "getStepData (currentPlayStep s) (currentPlayBlock s) bs = None"
    and "triggers (sched_iter tempo h ids bs s) = triggers s"
    and "visualQueue (sched_iter tempo h ids bs s) =
           visualQueue s @ [(currentPlayStep s, currentPlayBlock s, nextNoteTime s)]"
proof -
  show g: "getStepData (currentPlayStep s) (currentPlayBlock s) bs = None"
    using assms by (simp add: getStepData_def)
  show "triggers (sched_iter tempo h ids bs s) = triggers s"
    by (simp add: sched_iter_stale_eq [OF assms] advanceNote_time)
  show "visualQueue (sched_iter tempo h ids bs s) =
           visualQueue s @ [(currentPlayStep s, currentPlayBlock s, nextNoteTime s)]"
    by (simp add: sched_iter_stale_eq [OF assms] advanceNote_time)
qed

lemma sched_iter_in_range:
  assumes "currentPlayBlock s < length bs"
  shows "currentPlayBlock (sched_iter tempo h ids bs s) < length bs"
  using assms by (cases bs) (simp_all add: sched_iter_def Let_def scheduleNote_pos advanceNote_pos)

text \<open>
  Claim C4, as amended. The scheduler does not clamp the current block index when blocks
  are removed. While the index is out of range, each turn of the loop still calls
  \<open>getStepData\<close> with it: the call returns the empty object, the step is logged on
  the visual queue and nothing is triggered. The stale index is kept until the step
  counter wraps at the end of the bar; there \<open>advanceNote\<close> resets it to 0, which
  addresses an existing block when the block array is not empty. An index that is in
  range stays in range under a turn of the loop.
\<close>

theorem stale_block_index_until_bar_end:
  "(length bs \<le> currentPlayBlock s \<longrightarrow>
      getStepData (currentPlayStep s) (currentPlayBlock s) bs = None \<and>
      triggers (sched_iter tempo h ids bs s) = triggers s \<and>
      visualQueue (sched_iter tempo h ids bs s) =
        visualQueue s @ [(currentPlayStep s, currentPlayBlock s, nextNoteTime s)]) \<and>
   (length bs \<le> currentPlayBlock s \<and> currentPlayStep s < totalSteps \<and> bs \<noteq> [] \<longrightarrow>
      (\<forall>k < totalSteps - currentPlayStep s.
         currentPlayBlock ((sched_iter tempo h ids bs ^^ k) s) = currentPlayBlock s \<and>
         currentPlayStep ((sched_iter tempo h ids bs ^^ k) s) = currentPlayStep s + k) \<and>
      currentPlayBlock ((sched_iter tempo h ids bs ^^ (totalSteps - currentPlayStep s)) s) = 0 \<and>
      currentPlayStep ((sched_iter tempo h ids bs ^^ (totalSteps - currentPlayStep s)) s) = 0 \<and>
      currentPlayBlock ((sched_iter tempo h ids bs ^^ (totalSteps - currentPlayStep s)) s) < length bs) \<and>
   (currentPlayBlock s < length bs \<longrightarrow> currentPlayBlock (sched_iter tempo h ids bs s) < length bs)"
proof (intro conjI impI allI)
  assume "length bs \<le> currentPlayBlock s"
  then show "getStepData (currentPlayStep s) (currentPlayBlock s) bs = None"
    and "triggers (sched_iter tempo h ids bs s) = triggers s"
    and "visualQueue (sched_iter tempo h ids bs s) =
        visualQueue s @ [(currentPlayStep s, currentPlayBlock s, nextNoteTime s)]"
    by (rule sched_iter_stale)+
next
  fix k
  assume "length bs \<le> currentPlayBlock s \<and> currentPlayStep s < totalSteps \<and> bs \<noteq> []"
    and "k < totalSteps - currentPlayStep s"
  then have "length bs \<le> currentPlayBlock s" "currentPlayStep s + k < totalSteps" by simp_all
  from sched_iter_within_bar [OF this]
  show "currentPlayBlock ((sched_iter tempo h ids bs ^^ k) s) = currentPlayBlock s"
    and "currentPlayStep ((sched_iter tempo h ids bs ^^ k) s) = currentPlayStep s + k"
    by simp_all
next
  assume a: "length bs \<le> currentPlayBlock s \<and> currentPlayStep s < totalSteps \<and> bs \<noteq> []"
  then have sl: "length bs \<le> currentPlayBlock s" and st: "currentPlayStep s < totalSteps"
    by simp_all
  show z: "currentPlayBlock ((sched_iter tempo h ids bs ^^ (totalSteps - currentPlayStep s)) s) = 0"
    using sched_iter_bar_end(1) [OF sl st, of tempo h ids] a by simp
  show "currentPlayStep ((sched_iter tempo h ids bs ^^ (totalSteps - currentPlayStep s)) s) = 0"
    by (rule sched_iter_bar_end(2) [OF sl st])
  show "currentPlayBlock ((sched_iter tempo h ids bs ^^ (totalSteps - currentPlayStep s)) s) < length bs"
    unfolding z using a by simp
next
  assume "currentPlayBlock s < length bs"
  then show "currentPlayBlock (sched_iter tempo h ids bs s) < length bs"
    by (rule sched_iter_in_range)
qed

theorem stale_block_index_until_bar_end_witness:
  "getStepData 14 1 initialBlocks = None \<and>
   visualQueue (sched_iter 120 (drumSynth initialSession) (bassSynths initialSession) initialBlocks staleSched) = [(14, 1, 1)] \<and>
   currentPlayBlock ((sched_iter 120 (drumSynth initialSession) (bassSynths initialSession) initialBlocks ^^ 1) staleSched) = 1 \<and>
   currentPlayBlock ((sched_iter 120 (drumSynth initialSession) (bassSynths initialSession) initialBlocks ^^ 2) staleSched) = 0 \<and>
   currentPlayBlock (sched_iter 120 (drumSynth initialSession) (bassSynths initialSession) initialBlocks idleSched) < 1"
proof -
  have len: "length initialBlocks = 1"
    by (simp add: initialBlocks_def addBlock_def)
  have h1: "length initialBlocks \<le> currentPlayBlock staleSched"
    and h2: "length initialBlocks \<le> currentPlayBlock staleSched \<and>
             currentPlayStep staleSched < totalSteps \<and> initialBlocks \<noteq> []"
    and h3: "currentPlayBlock idleSched < length initialBlocks"
    and k: "1 < totalSteps - currentPlayStep staleSched"
    and n: "totalSteps - currentPlayStep staleSched = 2"
    using len by (auto simp: staleSched_def idleSched_def totalSteps_def)
  note t = stale_block_index_until_bar_end [of initialBlocks staleSched 120 "drumSynth initialSession" "bassSynths initialSession"]
  have "getStepData (currentPlayStep staleSched) (currentPlayBlock staleSched) initialBlocks = None"
    and "visualQueue (sched_iter 120 (drumSynth initialSession) (bassSynths initialSession) initialBlocks staleSched) =
         visualQueue staleSched @
           [(currentPlayStep staleSched, currentPlayBlock staleSched, nextNoteTime staleSched)]"
    using t h1 by blast+
  moreover have "currentPlayBlock ((sched_iter 120 (drumSynth initialSession) (bassSynths initialSession) initialBlocks ^^ 1) staleSched) =
      currentPlayBlock staleSched"
    using t h2 k by blast
  moreover have "currentPlayBlock ((sched_iter 120 (drumSynth initialSession) (bassSynths initialSession) initialBlocks ^^
      (totalSteps - currentPlayStep staleSched)) staleSched) = 0"
    using t h2 by blast
  moreover have "currentPlayBlock (sched_iter 120 (drumSynth initialSession) (bassSynths initialSession) initialBlocks idleSched)
      < length initialBlocks"
    using stale_block_index_until_bar_end [of initialBlocks idleSched 120 "drumSynth initialSession" "bassSynths initialSession"] h3
    by blast
  ultimately show ?thesis
    unfolding n len by (simp add: staleSched_def)
qed

text \<open>
  Claim C4 as stated fails: playback is started on the second of two blocks, that block
  is removed, and the next tick schedules step 0 with block index 1 although one block
  is left; the index is still 1 afterwards.
\<close>

theorem stale_block_index_counterexample:
  "length (addBlock initialBlocks) = 2 \<and>
   length (removeBlock 1 (addBlock initialBlocks)) = 1 \<and>
   scheduler 120 (drumSynth initialSession) (bassSynths initialSession) (removeBlock 1 (addBlock initialBlocks)) (1 / 20)
       (startPlayback 0 1 idleSched) =
     Some \<lparr>nextNoteTime = 9 / 40, currentPlayStep = 1, currentPlayBlock = 1,
            visualQueue = [(0, 1, 1 / 10)], triggers = []\<rparr> \<and>
   getStepData 0 1 (removeBlock 1 (addBlock initialBlocks)) = None \<and>
   \<not> 1 < length (removeBlock 1 (addBlock initialBlocks))"
proof -
  have two: "addBlock initialBlocks =
      [\<lparr>tracks = [(''bass-1'', emptyTrack)], drums = replicate totalSteps []\<rparr>,
       \<lparr>tracks = [(''bass-1'', emptyTrack)], drums = replicate totalSteps []\<rparr>]"
    by (simp add: initialBlocks_def addBlock_def)
  have one: "removeBlock 1 (addBlock initialBlocks) =
      [\<lparr>tracks = [(''bass-1'', emptyTrack)], drums = replicate totalSteps []\<rparr>]"
    unfolding two by (simp add: removeBlock_def splice1_def)
  have run: "scheduler 120 (drumSynth initialSession) (bassSynths initialSession)
       [\<lparr>tracks = [(''bass-1'', emptyTrack)], drums = replicate totalSteps []\<rparr>] (1 / 20)
       (startPlayback 0 1 idleSched) =
     Some \<lparr>nextNoteTime = 9 / 40, currentPlayStep = 1, currentPlayBlock = 1,
            visualQueue = [(0, 1, 1 / 10)], triggers = []\<rparr>"
    apply (subst scheduler.simps)
    apply (simp add: startPlayback_def idleSched_def lookahead_def sched_iter_def turn_raises_def
        scheduleNote_def getStepData_def advanceNote_def secPerStep_def totalSteps_def)
    apply (subst scheduler.simps)
    apply (simp add: lookahead_def)
    done
  show ?thesis
    unfolding one using run by (simp add: two getStepData_def)
qed

section \<open>Properties of the string functions\<close>



lemma split_on_not_Nil [simp]: "split_on c s \<noteq> []"
  by (induction s) (auto split: list.split)

lemma split_on_no_sep: "c \<notin> set s \<Longrightarrow> split_on c s = [s]"
  by (induction s) auto

lemma split_on_append: "c \<notin> set a \<Longrightarrow> split_on c (a @ c # r) = a # split_on c r"
  by (induction a) auto

lemma csv_row_Cons: "csv_row cfg (x # xs) = cfg @ CHR '','' # csv_row x xs"
  by (simp add: csv_row_def)

lemma csv_row_Nil: "csv_row cfg [] = cfg"
  by (simp add: csv_row_def)

lemma split_csv_row:
  "CHR '','' \<notin> set cfg \<Longrightarrow> (\<And>x. x \<in> set cells \<Longrightarrow> CHR '','' \<notin> set x) \<Longrightarrow>
   split_on CHR '','' (csv_row cfg cells) = cfg # cells"
proof (induction cells arbitrary: cfg)
  case Nil
  then show ?case by (simp add: csv_row_Nil split_on_no_sep)
next
  case (Cons x xs)
  have "split_on CHR '','' (csv_row x xs) = x # xs"
    using Cons.prems by (intro Cons.IH) simp_all
  then show ?case
    using Cons.prems(1) by (simp add: csv_row_Cons split_on_append)
qed




lemma length_digits10: "length digits10 = 10"
  by (simp add: digits10_def)

lemma digits10_nth: "k < 10 \<Longrightarrow> digits10 ! k \<in> set digits10"
  by (rule nth_mem) (simp add: length_digits10)



lemma is_digit_nth: "k < 10 \<Longrightarrow> is_digit (digits10 ! k)"
  by (simp add: is_digit_def digits10_nth)

lemma show_nat_digits: "x \<in> set (show_nat n) \<Longrightarrow> is_digit x"
proof (induction n arbitrary: x rule: show_nat.induct)
  case (1 n)
  show ?case
  proof (cases "n < 10")
    case True
    with "1.prems" show ?thesis
      by (subst (asm) show_nat.simps) (simp add: is_digit_nth)
  next
    case False
    with "1.prems" have "x \<in> set (show_nat (n div 10)) \<or> x = digits10 ! (n mod 10)"
      by (subst (asm) show_nat.simps) auto
    then show ?thesis
      using "1.IH" [OF False] by (auto simp: is_digit_nth)
  qed
qed

lemma show_nat_not_Nil [simp]: "show_nat n \<noteq> []"
  by (subst show_nat.simps) simp



lemma is_digit_simps:
  "\<not> is_digit CHR ''-''" "\<not> is_digit CHR ''+''" "\<not> is_digit CHR ''x''" "\<not> is_digit CHR ''X''"
  "\<not> is_digit CHR '',''" "\<not> is_digit CHR '':''" "\<not> is_digit CHR ''|''" "\<not> is_digit newline"
  "\<not> is_digit CHR ''N''" "\<not> is_digit CHR ''a''"
  by (simp_all add: is_digit_def digits10_def newline_def)








lemma show_int_chars: "x \<in> set (show_int i) \<Longrightarrow> is_digit x \<or> x = CHR ''-''"
  by (auto simp: show_int_def dest: show_nat_digits split: if_splits)

lemma show_jsnum_chars:
  "x \<in> set (show_jsnum v) \<Longrightarrow> is_digit x \<or> x = CHR ''-'' \<or> x = CHR ''N'' \<or> x = CHR ''a''"
  by (cases v) (auto simp: show_jsnum_def dest: show_int_chars)

section \<open>Properties of the CSV codec\<close>

text \<open>
  Claim C2 fails in the program. The text \<open>truncatedCsv\<close> has a valid header and a
  second line that is just \<open>drums\<close>. It is imported into a session with a note on
  step 0, drum hits on step 0, the tempo 140 and the master volume 85, whose audio nodes
  exist. The header is accepted, the tempo and the blocks are replaced, and the drum row
  is read: its master volume is \<open>NaN\<close>, \<open>setMasterVolume\<close> stores it and raises
  in the call of the gain node, and the \<open>catch\<close> returns false. The import has
  failed, and the session has another tempo, has lost its note and its drum hits, and
  has the master volume \<open>NaN\<close>.
\<close>

theorem import_failure_after_mutation:
  "fst (importFromCSV truncatedCsv demoSession) = False \<and>
   bpm demoSession = 140 \<and>
   bpm (snd (importFromCSV truncatedCsv demoSession)) = 120 \<and>
   note_at (blocks demoSession) 0 ''bass-1'' 0 =
     Some \<lparr>noteName = ''C'', octave = Some 3, slide = False, accent = True\<rparr> \<and>
   note_at (blocks (snd (importFromCSV truncatedCsv demoSession))) 0 ''bass-1'' 0 = None \<and>
   drums_at (blocks demoSession) 0 0 = [0, 2] \<and>
   drums_at (blocks (snd (importFromCSV truncatedCsv demoSession))) 0 0 = [] \<and>
   map_option masterVolume (drumSynth demoSession) = Some (Some 85) \<and>
   map_option masterVolume (drumSynth (snd (importFromCSV truncatedCsv demoSession))) = Some None"
  by code_simp

lemma drum_binary_nth:
  "k < length chs \<Longrightarrow>
   drum_binary chs dStep ! k = (if chId (chs ! k) \<in> set dStep then CHR ''1'' else CHR ''0'')"
  by (simp add: drum_binary_def)

lemma length_drum_binary: "length (drum_binary chs dStep) = length chs"
  by (simp add: drum_binary_def)

lemma concat_map_nth:
  assumes "b < length bs" "s < n"
  shows "concat (map (\<lambda>x. map (f x) [0..<n]) bs) ! (b * n + s) = f (bs ! b) s"
  using assms
proof (induction bs arbitrary: b)
  case Nil
  then show ?case by simp
next
  case (Cons x xs)
  show ?case
  proof (cases b)
    case 0
    with Cons.prems show ?thesis by (simp add: nth_append)
  next
    case (Suc b')
    with Cons.prems have "concat (map (\<lambda>x. map (f x) [0..<n]) xs) ! (b' * n + s) = f (xs ! b') s"
      by (intro Cons.IH) simp_all
    then show ?thesis
      using Suc by (simp add: nth_append)
  qed
qed

lemma length_concat_map:
  "length (concat (map (\<lambda>x. map (f x) [0..<n]) bs)) = length bs * n"
  by (induction bs) simp_all

lemma drum_cells_nth:
  "b < length bs \<Longrightarrow> s < totalSteps \<Longrightarrow>
   drum_cells chs bs ! (b * totalSteps + s) = drum_binary chs (drum_step (bs ! b) s)"
  unfolding drum_cells_def by (rule concat_map_nth)

lemma length_drum_cells: "length (drum_cells chs bs) = length bs * totalSteps"
  unfolding drum_cells_def by (rule length_concat_map)

lemma drum_binary_no_comma: "CHR '','' \<notin> set (drum_binary chs dStep)"
  by (auto simp: drum_binary_def)

lemma drum_cells_no_comma: "x \<in> set (drum_cells chs bs) \<Longrightarrow> CHR '','' \<notin> set x"
  by (auto simp: drum_cells_def drum_binary_no_comma)

lemma show_jsnum_no: 
  "CHR '','' \<notin> set (show_jsnum v)" "newline \<notin> set (show_jsnum v)"
  "CHR '':'' \<notin> set (show_jsnum v)" "CHR ''|'' \<notin> set (show_jsnum v)"
  using show_jsnum_chars [of _ v] is_digit_simps by (auto simp: newline_def)

lemma show_int_no: 
  "CHR '','' \<notin> set (show_int v)" "newline \<notin> set (show_int v)"
  "CHR '':'' \<notin> set (show_int v)" "CHR ''|'' \<notin> set (show_int v)"
  using show_int_chars [of _ v] is_digit_simps by (auto simp: newline_def)

lemma show_nat_no: 
  "CHR '','' \<notin> set (show_nat v)" "newline \<notin> set (show_nat v)"
  "CHR '':'' \<notin> set (show_nat v)" "CHR ''|'' \<notin> set (show_nat v)" "CHR ''-'' \<notin> set (show_nat v)"
  using show_nat_digits [of _ v] is_digit_simps by auto

lemma channel_config_no_comma:
  "CHR '','' \<notin> set (chType ch) \<Longrightarrow> CHR '','' \<notin> set (channel_config ch)"
  by (simp add: channel_config_def Let_def show_jsnum_no show_int_no)

lemma drum_config_no_comma:
  "(\<And>ch. ch \<in> set (channels d) \<Longrightarrow> CHR '','' \<notin> set (chType ch)) \<Longrightarrow>
   CHR '','' \<notin> set (drum_config d)"
  by (auto simp: drum_config_def show_jsnum_no show_nat_no dest: channel_config_no_comma)

lemma split_drum_row:
  "(\<And>ch. ch \<in> set (channels d) \<Longrightarrow> CHR '','' \<notin> set (chType ch)) \<Longrightarrow>
   split_on CHR '','' (drum_row d bs) = drum_config d # drum_cells (channels d) bs"
  unfolding drum_row_def
  by (rule split_csv_row) (simp_all add: drum_config_no_comma drum_cells_no_comma)

text \<open>
  Claim C9. With the channel array as the drum synth builds it (the channel at
  position \<open>k\<close> has id \<open>k\<close>), every drum cell of the exported CSV is a binary string
  whose length is the number of channels, and whose character at position \<open>k\<close> is
  \<open>1\<close> exactly when the raw channel index \<open>k\<close> is in that step's drum-hit list, and
  \<open>0\<close> otherwise. Changing the variants (also to 0) and the colour ids of the channels
  changes no cell. The cells are the fields that follow the first one in the drum row
  (whose channel types contain no comma).
\<close>

theorem drum_cells_binary_width:
  assumes ids: "map chId (channels d) = [0..<length (channels d)]"
  shows "length (drum_cells (channels d) bs) = length bs * totalSteps \<and>
    (\<forall>b s. b < length bs \<and> s < totalSteps \<longrightarrow>
       length (drum_cells (channels d) bs ! (b * totalSteps + s)) = length (channels d) \<and>
       (\<forall>k < length (channels d).
          drum_cells (channels d) bs ! (b * totalSteps + s) ! k =
            (if k \<in> set (drum_step (bs ! b) s) then CHR ''1'' else CHR ''0''))) \<and>
    drum_cells (map (\<lambda>ch. ch\<lparr>variant := v ch, colorId := c ch\<rparr>) (channels d)) bs =
      drum_cells (channels d) bs \<and>
    ((\<forall>ch \<in> set (channels d). CHR '','' \<notin> set (chType ch)) \<longrightarrow>
       tl (split_on CHR '','' (drum_row d bs)) = drum_cells (channels d) bs)"
proof (intro conjI allI impI)
  show "length (drum_cells (channels d) bs) = length bs * totalSteps"
    by (rule length_drum_cells)
next
  fix b s assume "b < length bs \<and> s < totalSteps"
  then show "length (drum_cells (channels d) bs ! (b * totalSteps + s)) = length (channels d)"
    by (simp add: drum_cells_nth length_drum_binary)
next
  fix b s k assume bs: "b < length bs \<and> s < totalSteps" and k: "k < length (channels d)"
  have "chId (channels d ! k) = map chId (channels d) ! k"
    using k by simp
  also have "\<dots> = k"
    unfolding ids using k by simp
  finally show "drum_cells (channels d) bs ! (b * totalSteps + s) ! k =
           (if k \<in> set (drum_step (bs ! b) s) then CHR ''1'' else CHR ''0'')"
    using bs k by (simp add: drum_cells_nth drum_binary_nth)
next
  show "drum_cells (map (\<lambda>ch. ch\<lparr>variant := v ch, colorId := c ch\<rparr>) (channels d)) bs =
         drum_cells (channels d) bs"
    by (simp add: drum_cells_def drum_binary_def comp_def)
next
  assume "\<forall>ch \<in> set (channels d). CHR '','' \<notin> set (chType ch)"
  then show "tl (split_on CHR '','' (drum_row d bs)) = drum_cells (channels d) bs"
    by (subst split_drum_row) simp_all
qed

theorem drum_cells_binary_width_witness:
  "drum_cells defaultChannels [\<lparr>tracks = [], drums = [[8, 0, 3]]\<rparr>] ! 0 = ''100100001'' \<and>
   length (drum_cells defaultChannels [\<lparr>tracks = [], drums = [[8, 0, 3]]\<rparr>] ! 0) = 9 \<and>
   drum_cells defaultChannels [\<lparr>tracks = [], drums = [[8, 0, 3]]\<rparr>] ! 0 ! 3 = CHR ''1''"
proof -
  let ?bs = "[\<lparr>tracks = [], drums = [[8, 0, 3]]\<rparr>]"
  have ids: "map chId (channels defaultDrumSynth) = [0..<length (channels defaultDrumSynth)]"
    by (simp add: defaultDrumSynth_def defaultChannels_def upt_rec)
  have bs: "0 < length ?bs \<and> 0 < totalSteps" and k: "3 < length (channels defaultDrumSynth)"
    by (simp_all add: totalSteps_def defaultDrumSynth_def defaultChannels_def)
  have ch: "channels defaultDrumSynth = defaultChannels"
    by (simp add: defaultDrumSynth_def)
  note t = drum_cells_binary_width [OF ids, of ?bs]
  have "length (drum_cells (channels defaultDrumSynth) ?bs ! (0 * totalSteps + 0)) =
      length (channels defaultDrumSynth)"
    using t bs by blast
  then have "length (drum_cells defaultChannels ?bs ! 0) = 9"
    by (simp add: ch) (simp add: defaultChannels_def)
  moreover have "drum_cells (channels defaultDrumSynth) ?bs ! (0 * totalSteps + 0) ! 3 =
      (if 3 \<in> set (drum_step (?bs ! 0) 0) then CHR ''1'' else CHR ''0'')"
    using t bs k by blast
  then have "drum_cells defaultChannels ?bs ! 0 ! 3 = CHR ''1''"
    by (simp add: ch drum_step_def)
  moreover have "drum_cells defaultChannels ?bs ! 0 = ''100100001''"
    by (simp add: drum_cells_def totalSteps_def upt_rec drum_binary_def drum_step_def
        defaultChannels_def)
  ultimately show ?thesis by simp
qed

text \<open>
  Claim C7, at the input on which the code departs from it. The cell \<open>1-3-1\<close> has
  three sub-fields and is skipped, and the import succeeds; but the cell \<open>0-3-0-0\<close>,
  whose pitch index 0 is the reserved entry \<open>-\<close> of \<open>noteMapRev\<close>, is recorded as
  a note with that pitch, because the guard tests the looked-up name for truthiness and
  \<open>-\<close> is a non-empty string.
\<close>

theorem reserved_pitch_cell_recorded: "fst (importFromCSV reservedPitchCsv initialSession) \<and>
   note_at (blocks (snd (importFromCSV reservedPitchCsv initialSession))) 0 ''bass-1'' 0 =
     Some \<lparr>noteName = ''-'', octave = Some 3, slide = False, accent = False\<rparr> \<and>
   note_at (blocks (snd (importFromCSV reservedPitchCsv initialSession))) 0 ''bass-1'' 1 = None"
  by code_simp


section \<open>The round trip through the CSV text\<close>

lemma map_of_map_entry_same:
  "map_of (AList.map_entry k f xs) k' =
     (if k' = k then map_option f (map_of xs k) else map_of xs k')"
  by (induction xs) auto


lemma setNote_has_track: "has_track tid' b \<Longrightarrow> has_track tid' (setNote tid st n b)"
  by (auto simp: has_track_def setNote_def map_of_map_entry_same)

lemma setNote_drums: "drums (setNote tid st n b) = drums b"
  by (simp add: setNote_def)

lemma import_bass_cell_eq:
  "import_bass_cell cells tid sg B =
     (case nth_opt cells (sg + 1) of
        None \<Rightarrow> B
      | Some c \<Rightarrow>
          (case parse_bass_cell c of
             None \<Rightarrow> B
           | Some n \<Rightarrow>
               if sg div totalSteps < length B
               then B[sg div totalSteps := setNote tid (sg mod totalSteps) n (B ! (sg div totalSteps))]
               else B))"
  by (auto simp: import_bass_cell_def parse_bass_cell_def Let_def split: option.splits)





lemma import_bass_cell_cases:
  "import_bass_cell cells tid sg B =
     (case cell_note cells sg of
        None \<Rightarrow> B
      | Some n \<Rightarrow>
          if sg div totalSteps < length B
          then B[sg div totalSteps := setNote tid (sg mod totalSteps) n (B ! (sg div totalSteps))]
          else B)"
  by (simp add: import_bass_cell_eq cell_note_def split: option.splits)

lemma length_import_bass_cell [simp]: "length (import_bass_cell cells tid sg B) = length B"
  by (simp add: import_bass_cell_cases split: option.splits)

lemma has_track_import_bass_cell:
  assumes "\<forall>b \<in> set B. has_track tid' b"
  shows "\<forall>b \<in> set (import_bass_cell cells tid sg B). has_track tid' b"
proof (cases "cell_note cells sg")
  case None
  with assms show ?thesis by (simp add: import_bass_cell_cases)
next
  case (Some n)
  show ?thesis
  proof (cases "sg div totalSteps < length B")
    case True
    then have "has_track tid' (B ! (sg div totalSteps))"
      using assms by simp
    then have "has_track tid' (setNote tid (sg mod totalSteps) n (B ! (sg div totalSteps)))"
      by (rule setNote_has_track)
    with assms show ?thesis
      using set_update_subset_insert [of B "sg div totalSteps"]
      by (auto simp: import_bass_cell_cases Some True)
  next
    case False
    with assms show ?thesis by (simp add: import_bass_cell_cases Some)
  qed
qed

lemma drums_at_import_bass_cell [simp]:
  "drums_at (import_bass_cell cells tid sg B) b st = drums_at B b st"
  by (auto simp: import_bass_cell_cases drums_at_def drum_step_def setNote_drums nth_list_update
      split: option.splits)



lemma length_fold_import_bass_cell [simp]:
  "length (fold (import_bass_cell cells tid) xs B) = length B"
  by (induction xs arbitrary: B) simp_all

lemma has_track_fold_import_bass_cell:
  "\<forall>b \<in> set B. has_track tid' b \<Longrightarrow>
   \<forall>b \<in> set (fold (import_bass_cell cells tid) xs B). has_track tid' b"
proof (induction xs arbitrary: B)
  case Nil
  then show ?case by simp
next
  case (Cons x xs)
  from has_track_import_bass_cell [OF Cons.prems]
  have "\<forall>b \<in> set (import_bass_cell cells tid x B). has_track tid' b" .
  from Cons.IH [OF this] show ?case by simp
qed

lemma drums_at_fold_import_bass_cell [simp]:
  "drums_at (fold (import_bass_cell cells tid) xs B) b st = drums_at B b st"
  by (induction xs arbitrary: B) simp_all



















lemma length_registerTrack [simp]: "length (registerTrack tid B) = length B"
  by (simp add: registerTrack_def)

lemma map_of_append_new:
  "map_of xs k = None \<Longrightarrow> map_of (xs @ [(k, v)]) k' = (if k' = k then Some v else map_of xs k')"
  by (auto simp: map_add_def split: option.split)



lemma track_slot_register:
  "track_slot (if map_of (tracks b) tid = None then b\<lparr>tracks := tracks b @ [(tid, emptyTrack)]\<rparr> else b)
     tid' st = track_slot b tid' st"
  by (auto simp: track_slot_def map_of_append_new emptyTrack_def simp del: map_of_append)



lemma note_at_registerTrack [simp]: "note_at (registerTrack tid B) b tid' st = note_at B b tid' st"
  by (simp add: note_at_def registerTrack_def track_slot_register)

lemma drums_at_registerTrack [simp]: "drums_at (registerTrack tid B) b st = drums_at B b st"
  by (simp add: drums_at_def registerTrack_def drum_step_def)





























lemma set_channel_fields_idem [simp]:
  "set_channel_fields src (set_channel_fields src ch) = set_channel_fields src ch"
  by (simp add: set_channel_fields_def)


lemma import_drum_cell_cases:
  "import_drum_cell cells sg B =
     (case cell_bits cells sg of
        None \<Rightarrow> B
      | Some ds \<Rightarrow>
          if sg div totalSteps < length B
          then B[sg div totalSteps := setDrums (sg mod totalSteps) ds (B ! (sg div totalSteps))]
          else B)"
  by (simp add: import_drum_cell_def cell_bits_def setDrums_def Let_def split: option.splits)

lemma length_import_drum_cell [simp]: "length (import_drum_cell cells sg B) = length B"
  by (simp add: import_drum_cell_cases split: option.splits)

lemma map_tracks_import_drum_cell [simp]:
  "map tracks (import_drum_cell cells sg B) = map tracks B"
  by (auto simp: import_drum_cell_cases setDrums_def map_update list_update_same_conv
      split: option.splits)

lemma drums_len_import_drum_cell:
  "map (length \<circ> drums) (import_drum_cell cells sg B) = map (length \<circ> drums) B"
  by (auto simp: import_drum_cell_cases setDrums_def map_update list_update_same_conv
      split: option.splits)


lemma length_fold_import_drum_cell [simp]:
  "length (fold (import_drum_cell cells) xs B) = length B"
  by (induction xs arbitrary: B) simp_all

lemma map_tracks_fold_import_drum_cell [simp]:
  "map tracks (fold (import_drum_cell cells) xs B) = map tracks B"
  by (induction xs arbitrary: B) simp_all

lemma drums_len_fold_import_drum_cell:
  "map (length \<circ> drums) (fold (import_drum_cell cells) xs B) = map (length \<circ> drums) B"
  by (induction xs arbitrary: B) (simp_all add: drums_len_import_drum_cell)






lemma upt_Suc_map: "[1..<Suc n] = map Suc [0..<n]"
  by (simp add: map_Suc_upt)











lemma show_int_not_Nil [simp]: "show_int i \<noteq> []"
  by (simp add: show_int_def)












lemma map_drums_registerTrack [simp]: "map drums (registerTrack tid B) = map drums B"
  by (simp add: registerTrack_def comp_def)

lemma map_drums_import_bass_cell [simp]:
  "map drums (import_bass_cell cells tid sg B) = map drums B"
  by (auto simp: import_bass_cell_cases setNote_drums map_update list_update_same_conv
      split: option.splits)

lemma map_drums_fold_import_bass_cell [simp]:
  "map drums (fold (import_bass_cell cells tid) xs B) = map drums B"
  by (induction xs arbitrary: B) simp_all











end
